theory Spec2Isabelle
  imports Main "HOL-Library.Word" "HOL-Library.Signed_Division" "HOL-Library.Multiset"
begin

section \<open>Data model (main.go, lines 19 to 43)\<close>

text \<open>
  \<^verbatim>\<open>time.Duration\<close> is an \<^verbatim>\<open>int64\<close> count of nanoseconds: a 64-bit word, read
  as two's complement by \<open>sint\<close>; its addition wraps around. The counters and indices of
  type \<^verbatim>\<open>int\<close> only ever count loop iterations from zero, one executed probe or cycle
  at a time, and would need \<open>2\<^sup>6\<^sup>3\<close> of them to wrap; they are modelled as unbounded
  integers.
\<close>

type_synonym Duration = "64 word"

record RequestResult =
  ID :: int
  URL :: string
  Status :: string
  Error :: string
  Duration :: string

record CycleStats =
  CycleNumber :: int
  TotalRequests :: int
  SuccessCount :: int
  ErrorCount :: int
  AvgDurationMS :: string
  ResponseCodes :: "int \<rightharpoonup> int"

record Report =
  TotalRequests :: int
  SuccessCount :: int
  ErrorCount :: int
  AvgDurationMS :: string
  ResponseCodes :: "int \<rightharpoonup> int"
  CycleDetails :: "CycleStats list"

section \<open>The Go runtime and standard library, as far as the engine uses them\<close>

subsection \<open>Integer division, maps, panics\<close>

datatype panic = MakechanSizeOutOfRange | IntegerDivideByZero

text \<open>Go's \<^verbatim>\<open>/\<close> on \<^verbatim>\<open>int64\<close> truncates towards zero (and wraps at \<^verbatim>\<open>MinInt64 / -1\<close>).\<close>

definition int64_div :: "Duration \<Rightarrow> Duration \<Rightarrow> Duration" where
  "int64_div a b = word_of_int (sint a sdiv sint b)"

text \<open>Reading \<^verbatim>\<open>m[k]\<close> of a \<^verbatim>\<open>map[int]int\<close> gives 0 for a missing key; \<^verbatim>\<open>m[k]++\<close>
  stores the value read plus one.\<close>

definition index_map :: "(int \<rightharpoonup> int) \<Rightarrow> int \<Rightarrow> int" where
  "index_map m k = (case m k of None \<Rightarrow> 0 | Some v \<Rightarrow> v)"

definition incr :: "(int \<rightharpoonup> int) \<Rightarrow> int \<Rightarrow> (int \<rightharpoonup> int)" where
  "incr m k = m(k \<mapsto> index_map m k + 1)"

subsection \<open>\<^verbatim>\<open>time.Duration.String\<close>\<close>

definition digitChar :: "nat \<Rightarrow> char" where
  "digitChar d = char_of (d + 48)"

function fmtFrac_loop :: "nat \<Rightarrow> nat \<Rightarrow> nat \<Rightarrow> bool \<Rightarrow> string \<Rightarrow> string \<times> nat \<times> bool" where
  "fmtFrac_loop i prec v print buf =
     (if i < prec then
        let digit = v mod 10;
            print' = (print \<or> digit \<noteq> 0);
            buf' = (if print' then digitChar digit # buf else buf)
        in fmtFrac_loop (i + 1) prec (v div 10) print' buf'
      else (buf, v, print))"
  by pat_completeness auto
termination
  by (relation "measure (\<lambda>(i, prec, v, print, buf). prec - i)") auto

declare fmtFrac_loop.simps [simp del]

definition fmtFrac :: "string \<Rightarrow> nat \<Rightarrow> nat \<Rightarrow> string \<times> nat" where
  "fmtFrac buf v prec =
     (case fmtFrac_loop 0 prec v False buf of
        (b, v', print) \<Rightarrow> (if print then CHR ''.'' # b else b, v'))"

function fmtInt_loop :: "string \<Rightarrow> nat \<Rightarrow> string" where
  "fmtInt_loop buf v =
     (if v > 0 then fmtInt_loop (digitChar (v mod 10) # buf) (v div 10) else buf)"
  by pat_completeness auto
termination
  by (relation "measure (\<lambda>(buf, v). v)") auto

declare fmtInt_loop.simps [simp del]

definition fmtInt :: "string \<Rightarrow> nat \<Rightarrow> string" where
  "fmtInt buf v = (if v = 0 then CHR ''0'' # buf else fmtInt_loop buf v)"

definition Microsecond :: nat where "Microsecond = 1000"
definition Millisecond :: nat where "Millisecond = 1000000"
definition Second :: nat where "Second = 1000000000"

text \<open>The buffer is filled from its end, so every write prepends. The micro sign is the
  two bytes C2 B5.\<close>

definition Duration_String :: "Duration \<Rightarrow> string" where
  "Duration_String d =
     (let neg = (sint d < 0);
          u = unat (if neg then - d else d);
          body =
            (if u < Second then
               (if u = 0 then ''0s''
                else if u < Microsecond then
                  (case fmtFrac ''ns'' u 0 of (b, v) \<Rightarrow> fmtInt b v)
                else if u < Millisecond then
                  (case fmtFrac ([CHR 0xC2, CHR 0xB5] @ ''s'') u 3 of (b, v) \<Rightarrow> fmtInt b v)
                else
                  (case fmtFrac ''ms'' u 6 of (b, v) \<Rightarrow> fmtInt b v))
             else
               (case fmtFrac ''s'' u 9 of
                  (b, v) \<Rightarrow>
                    let b1 = fmtInt b (v mod 60); v1 = v div 60 in
                    if v1 > 0 then
                      let b2 = fmtInt (CHR ''m'' # b1) (v1 mod 60); v2 = v1 div 60 in
                      if v2 > 0 then fmtInt (CHR ''h'' # b2) v2 else b2
                    else b1))
      in if neg then CHR ''-'' # body else body)"

subsection \<open>\<^verbatim>\<open>fmt.Sscanf\<close> with the format \<^verbatim>\<open>%d\<close>\<close>

definition decimalDigits :: string where
  "decimalDigits = ''0123456789''"

definition sign :: string where
  "sign = ''+-''"

text \<open>
  The byte length of a white-space rune at the head of the input, 0 when there is none:
  U+0009 to U+000D, U+0020, U+0085, U+00A0, U+1680, U+2000 to U+200A, U+2028, U+2029,
  U+202F, U+205F and U+3000 in UTF-8.
\<close>

fun spaceBytes :: "string \<Rightarrow> nat" where
  "spaceBytes [] = 0"
| "spaceBytes (c # cs) =
     (let b = (of_char c :: nat); bs = map of_char (take 2 cs) :: nat list in
      if (9 \<le> b \<and> b \<le> 13) \<or> b = 32 then 1
      else if b = 0xC2 \<and> (take 1 bs = [0x85] \<or> take 1 bs = [0xA0]) then 2
      else if b = 0xE1 \<and> bs = [0x9A, 0x80] then 3
      else if b = 0xE2 \<and> length bs = 2 \<and> bs ! 0 = 0x80
              \<and> (0x80 \<le> bs ! 1 \<and> bs ! 1 \<le> 0x8A \<or> bs ! 1 = 0xA8 \<or> bs ! 1 = 0xA9 \<or> bs ! 1 = 0xAF)
           then 3
      else if b = 0xE2 \<and> bs = [0x81, 0x9F] then 3
      else if b = 0xE3 \<and> bs = [0x80, 0x80] then 3
      else 0)"

text \<open>\<^verbatim>\<open>SkipSpace\<close>: a newline is an error for \<^verbatim>\<open>Sscanf\<close> (\<open>None\<close>), also after a
  carriage return; other white space is dropped.\<close>

function SkipSpace :: "string \<Rightarrow> string option" where
  "SkipSpace s =
     (if s = [] then Some []
      else if hd s = CHR 0x0A then None
      else if spaceBytes s = 0 then Some s
      else SkipSpace (drop (spaceBytes s) s))"
  by pat_completeness auto
termination
  by (relation "measure length") auto

declare SkipSpace.simps [simp del]

definition decimal :: "string \<Rightarrow> int" where
  "decimal ds = foldl (\<lambda>a c. 10 * a + (of_char c - 48)) 0 ds"

text \<open>
  \<^verbatim>\<open>scanInt\<close> for the verb \<^verbatim>\<open>d\<close> and a 64-bit operand: white space, then end of input
  is an error; an optional sign is accepted; at least one decimal digit is required; the
  token goes to \<^verbatim>\<open>strconv.ParseInt(tok, 10, 64)\<close>, which fails outside the
  \<^verbatim>\<open>int64\<close> range. \<open>None\<close> is any error: the operand is then not written.
\<close>

definition Sscanf_d :: "string \<Rightarrow> int option" where
  "Sscanf_d str =
     (case SkipSpace str of
        None \<Rightarrow> None
      | Some s \<Rightarrow>
          if s = [] then None
          else
            let neg = (hd s = CHR ''-'');
                s1 = (if hd s \<in> set sign then tl s else s);
                tok = takeWhile (\<lambda>c. c \<in> set decimalDigits) s1
            in if tok = [] then None
               else
                 let i = (if neg then - decimal tok else decimal tok)
                 in if - (2 ^ 63) \<le> i \<and> i < 2 ^ 63 then Some i else None)"

subsection \<open>The world outside the engine\<close>

text \<open>
  \<^verbatim>\<open>http.Get\<close> returns a response, of which the engine reads \<^verbatim>\<open>resp.Status\<close>, or
  an error, which is always a \<^verbatim>\<open>*url.Error\<close> with the fields Op, URL and Err; its
  message is \<^verbatim>\<open>Sprintf("%s %q: %s", Op, URL, Err)\<close>. Where the client returns both (a
  refused redirect), the engine looks at the error only, so that case is a failure here.
  Every call is taken to return: a probe that never did would hold \<^verbatim>\<open>wg.Wait\<close> and the
  run would not come to its report.
\<close>

datatype url_Error = url_Error string string string

datatype get_result = Response string | Failure url_Error

text \<open>
  What the engine cannot decide: the answer and the elapsed time of each probe (by cycle
  and sequence ID), the order in which the probes of a cycle reach the channel, the
  number of bytes the runtime grants to the buffer of a channel (its constant
  \<^verbatim>\<open>maxAlloc - hchanSize\<close>, a \<^verbatim>\<open>uintptr\<close>), and two library functions left
  uninterpreted, \<^verbatim>\<open>strconv.Quote\<close> behind \<^verbatim>\<open>%q\<close> and \<^verbatim>\<open>time.ParseDuration\<close>
  (whose error the engine discards).
\<close>

record env =
  http_Get :: "string \<Rightarrow> int \<Rightarrow> int \<Rightarrow> get_result"
  elapsed :: "int \<Rightarrow> int \<Rightarrow> Duration"
  arrival :: "int \<Rightarrow> nat list"
  makechanLimit :: "64 word"
  strconv_Quote :: "string \<Rightarrow> string"
  time_ParseDuration :: "string \<Rightarrow> Duration"

text \<open>
  \<^verbatim>\<open>make(chan RequestResult, size)\<close> calls the runtime's \<^verbatim>\<open>makechan\<close>, which panics
  when the size is negative, when the bytes of the buffer, element size times \<open>size\<close>,
  overflow a \<^verbatim>\<open>uintptr\<close>, and when they exceed \<^verbatim>\<open>maxAlloc - hchanSize\<close>. A
  \<^verbatim>\<open>RequestResult\<close> is an \<^verbatim>\<open>int\<close> and four strings: 72 bytes where \<^verbatim>\<open>int\<close> has
  64 bits. That the machine then has the memory the runtime grants is taken for granted.
\<close>

definition elemSize :: int where
  "elemSize = 72"

definition makechan_panics :: "env \<Rightarrow> int \<Rightarrow> bool" where
  "makechan_panics e size' =
     (let mem = elemSize * size';
          overflow = (2 ^ 64 \<le> mem)
      in overflow \<or> uint (makechanLimit e) < mem \<or> size' < 0)"

definition url_Error_Error :: "env \<Rightarrow> url_Error \<Rightarrow> string" where
  "url_Error_Error e err =
     (case err of url_Error op u cause \<Rightarrow> op @ '' '' @ strconv_Quote e u @ '': '' @ cause)"

text \<open>
  A buffered channel hands its values over in the order they were sent. The sends of one
  cycle come from concurrent goroutines: each number of the schedule picks which of the
  pending sends is next (modulo how many are pending); when the schedule runs out, the
  rest arrives in launch order.
\<close>

fun arrive :: "nat list \<Rightarrow> 'a list \<Rightarrow> 'a list" where
  "arrive ks [] = []"
| "arrive [] (x # xs) = x # xs"
| "arrive (k # ks) (x # xs) =
     (let i = k mod length (x # xs)
      in (x # xs) ! i # arrive ks (take i (x # xs) @ drop (Suc i) (x # xs)))"

section \<open>The engine (main.go, lines 46 to 138)\<close>

subsection \<open>\<^verbatim>\<open>checkStatus\<close>\<close>

text \<open>
  One probe. The value returned is the one value the goroutine sends on the channel, on
  either path; \<^verbatim>\<open>wg.Done\<close> and the closing of the body have no part in it. The cycle
  number is not an argument of the Go function: here it only selects the world's answer to
  this call.
\<close>

definition checkStatus :: "env \<Rightarrow> int \<Rightarrow> string \<Rightarrow> int \<Rightarrow> RequestResult" where
  "checkStatus e cycle url id' =
     (let duration = elapsed e cycle id';
          result = \<lparr>ID = id', URL = url, Status = '''', Error = '''',
                    Duration = Duration_String duration\<rparr>
      in case http_Get e url cycle id' of
           Failure err \<Rightarrow> result\<lparr>Error := url_Error_Error e err\<rparr>
         | Response status \<Rightarrow> result\<lparr>Status := status\<rparr>)"

subsection \<open>\<^verbatim>\<open>calculateAverageDuration\<close>\<close>

fun sumDurations :: "Duration \<Rightarrow> Duration list \<Rightarrow> Duration" where
  "sumDurations total' [] = total'"
| "sumDurations total' (d # ds) = sumDurations (total' + d) ds"

definition calculateAverageDuration :: "Duration list \<Rightarrow> panic + Duration" where
  "calculateAverageDuration ds =
     (let total' = sumDurations 0 ds
      in if length ds = 0 then Inl IntegerDivideByZero
         else Inr (int64_div total' (of_nat (length ds))))"

subsection \<open>\<^verbatim>\<open>runAPITest\<close>: reducing the results of a cycle (lines 94 to 113)\<close>

text \<open>The variables the \<^verbatim>\<open>range\<close> loop updates.\<close>

record tally =
  report :: Report
  cycleStats :: CycleStats
  totalDurations :: "Duration list"
  cycleDurations :: "Duration list"

text \<open>The test \<^verbatim>\<open>result.Error == ""\<close> of line 97.\<close>

definition succeeded :: "RequestResult \<Rightarrow> bool" where
  "succeeded result = (Error result = [])"

text \<open>Lines 101 and 102: \<^verbatim>\<open>statusCode\<close> starts at 0 and keeps it when the scan fails;
  the error of \<^verbatim>\<open>Sscanf\<close> is dropped.\<close>

definition scanStatusCode :: "string \<Rightarrow> int" where
  "scanStatusCode status = (case Sscanf_d status of None \<Rightarrow> 0 | Some n \<Rightarrow> n)"

definition collect :: "env \<Rightarrow> RequestResult \<Rightarrow> tally \<Rightarrow> tally" where
  "collect e result t =
     (let r1 = (report t)\<lparr>Report.TotalRequests := Report.TotalRequests (report t) + 1\<rparr>;
          c1 = (cycleStats t)
                 \<lparr>CycleStats.TotalRequests := CycleStats.TotalRequests (cycleStats t) + 1\<rparr>
      in if succeeded result then
           let statusCode = scanStatusCode (Status result);
               duration = time_ParseDuration e (Duration result)
           in \<lparr>report = r1\<lparr>Report.SuccessCount := Report.SuccessCount r1 + 1,
                            Report.ResponseCodes := incr (Report.ResponseCodes r1) statusCode\<rparr>,
               cycleStats = c1\<lparr>CycleStats.SuccessCount := CycleStats.SuccessCount c1 + 1,
                            CycleStats.ResponseCodes :=
                              incr (CycleStats.ResponseCodes c1) statusCode\<rparr>,
               totalDurations = totalDurations t @ [duration],
               cycleDurations = cycleDurations t @ [duration]\<rparr>
         else
           \<lparr>report = r1\<lparr>Report.ErrorCount := Report.ErrorCount r1 + 1\<rparr>,
            cycleStats = c1\<lparr>CycleStats.ErrorCount := CycleStats.ErrorCount c1 + 1\<rparr>,
            totalDurations = totalDurations t,
            cycleDurations = cycleDurations t\<rparr>)"

fun rangeResults :: "env \<Rightarrow> RequestResult list \<Rightarrow> tally \<Rightarrow> tally" where
  "rangeResults e [] t = t"
| "rangeResults e (result # results) t = rangeResults e results (collect e result t)"

subsection \<open>\<^verbatim>\<open>runAPITest\<close>: one cycle (lines 75 to 120)\<close>

text \<open>What the control goroutine does in order: the calls of \<^verbatim>\<open>progress\<close> and the
  \<^verbatim>\<open>go\<close> statements (cycle, sequence ID).\<close>

datatype event = Progress int | Go int int

text \<open>Between two cycles: the variables \<^verbatim>\<open>report\<close> and \<^verbatim>\<open>totalDurations\<close> of the
  function, and the trace so far.\<close>

record run_state =
  rep :: Report
  durations :: "Duration list"
  trace :: "event list"

text \<open>Lines 80 to 86: the IDs 0 to \<open>numGoroutines - 1\<close> are launched in order; after
  \<^verbatim>\<open>wg.Wait()\<close> the closed channel holds one result for each.\<close>

definition launched :: "int \<Rightarrow> int list" where
  "launched numGoroutines = [0..numGoroutines - 1]"

definition channel :: "env \<Rightarrow> string \<Rightarrow> int \<Rightarrow> int \<Rightarrow> RequestResult list" where
  "channel e url numGoroutines cycle =
     arrive (arrival e cycle) (map (checkStatus e cycle url) (launched numGoroutines))"

text \<open>A panic ends the run; what the control goroutine had done until then is kept with
  it. The channel is made after the call of \<^verbatim>\<open>progress\<close> and before any probe is
  launched.\<close>

definition cycleBody ::
  "env \<Rightarrow> string \<Rightarrow> int \<Rightarrow> int \<Rightarrow> run_state \<Rightarrow> panic \<times> event list + run_state" where
  "cycleBody e url numGoroutines cycle s =
     (let tr1 = trace s @ [Progress cycle]
      in if makechan_panics e numGoroutines then Inl (MakechanSizeOutOfRange, tr1)
         else
           let tr2 = tr1 @ map (Go cycle) (launched numGoroutines);
               results = channel e url numGoroutines cycle;
               t = rangeResults e results
                     \<lparr>report = rep s,
                      cycleStats = \<lparr>CycleNumber = cycle, TotalRequests = 0, SuccessCount = 0,
                                    ErrorCount = 0, AvgDurationMS = [],
                                    ResponseCodes = Map.empty\<rparr>,
                      totalDurations = durations s,
                      cycleDurations = []\<rparr>;
               done = (\<lambda>cs. \<lparr>rep = (report t)\<lparr>CycleDetails := CycleDetails (report t) @ [cs]\<rparr>,
                              durations = totalDurations t, trace = tr2\<rparr>)
           in if length (cycleDurations t) > 0 then
                (case calculateAverageDuration (cycleDurations t) of
                   Inl p \<Rightarrow> Inl (p, tr2)
                 | Inr avg \<Rightarrow>
                     Inr (done ((cycleStats t)\<lparr>CycleStats.AvgDurationMS := Duration_String avg\<rparr>)))
              else Inr (done (cycleStats t)))"

subsection \<open>\<^verbatim>\<open>runAPITest\<close>: the cycle loop and the final average\<close>

function cycleLoop ::
  "env \<Rightarrow> string \<Rightarrow> int \<Rightarrow> int \<Rightarrow> int \<Rightarrow> run_state \<Rightarrow> panic \<times> event list + run_state" where
  "cycleLoop e url numGoroutines maxCycles cycle s =
     (if cycle \<le> maxCycles then
        (case cycleBody e url numGoroutines cycle s of
           Inl p \<Rightarrow> Inl p
         | Inr s' \<Rightarrow> cycleLoop e url numGoroutines maxCycles (cycle + 1) s')
      else Inr s)"
  by pat_completeness auto
termination
  by (relation "measure (\<lambda>(e, url, numGoroutines, maxCycles, cycle, s). nat (maxCycles + 1 - cycle))")
    auto

declare cycleLoop.simps [simp del]

text \<open>The result is the report, or the panic, together with the trace of the control
  goroutine; the callback \<^verbatim>\<open>progress\<close> is observed through the trace.\<close>

definition runAPITest ::
  "env \<Rightarrow> string \<Rightarrow> int \<Rightarrow> int \<Rightarrow> panic \<times> event list + Report \<times> event list" where
  "runAPITest e url numGoroutines maxCycles =
     (case cycleLoop e url numGoroutines maxCycles 1
             \<lparr>rep = \<lparr>TotalRequests = 0, SuccessCount = 0, ErrorCount = 0, AvgDurationMS = [],
                     ResponseCodes = Map.empty, CycleDetails = []\<rparr>,
              durations = [], trace = []\<rparr> of
        Inl p \<Rightarrow> Inl p
      | Inr s \<Rightarrow>
          if length (durations s) > 0 then
            (case calculateAverageDuration (durations s) of
               Inl p \<Rightarrow> Inl (p, trace s)
             | Inr avg \<Rightarrow> Inr ((rep s)\<lparr>Report.AvgDurationMS := Duration_String avg\<rparr>, trace s))
          else Inr (rep s, trace s))"

section \<open>Vocabulary of the statements\<close>

text \<open>Whether the world answers a probe with a response, and the status line it carries.\<close>

definition answered :: "env \<Rightarrow> string \<Rightarrow> int \<Rightarrow> int \<Rightarrow> bool" where
  "answered e url cycle i = (case http_Get e url cycle i of Response st \<Rightarrow> True | Failure err \<Rightarrow> False)"

definition statusLine :: "env \<Rightarrow> string \<Rightarrow> int \<Rightarrow> int \<Rightarrow> string" where
  "statusLine e url cycle i = (case http_Get e url cycle i of Response st \<Rightarrow> st | Failure err \<Rightarrow> [])"

text \<open>The sequence IDs of a cycle whose probe got a response, their measured latencies, and
  the latencies of all such probes of a run, in launch order.\<close>

definition okIDs :: "env \<Rightarrow> string \<Rightarrow> int \<Rightarrow> int \<Rightarrow> int list" where
  "okIDs e url n cycle = filter (answered e url cycle) (launched n)"

definition latencies :: "env \<Rightarrow> string \<Rightarrow> int \<Rightarrow> int \<Rightarrow> Duration list" where
  "latencies e url n cycle = map (elapsed e cycle) (okIDs e url n cycle)"

definition pool :: "env \<Rightarrow> string \<Rightarrow> int \<Rightarrow> int \<Rightarrow> Duration list" where
  "pool e url n m = concat (map (latencies e url n) [1..m])"

text \<open>The status codes scanned from the responses of a cycle.\<close>

definition codes :: "env \<Rightarrow> string \<Rightarrow> int \<Rightarrow> int \<Rightarrow> int list" where
  "codes e url n cycle = map (\<lambda>i. scanStatusCode (statusLine e url cycle i)) (okIDs e url n cycle)"

text \<open>The sum of the values of a histogram.\<close>

definition histSum :: "(int \<rightharpoonup> int) \<Rightarrow> int" where
  "histSum m = (\<Sum>k \<in> dom m. index_map m k)"

text \<open>The reduction of a list of results, field by field.\<close>

definition histogram :: "(int \<rightharpoonup> int) \<Rightarrow> RequestResult list \<Rightarrow> (int \<rightharpoonup> int)" where
  "histogram m rs = foldl incr m (map (\<lambda>r. scanStatusCode (Status r)) (filter succeeded rs))"

definition parsed :: "env \<Rightarrow> RequestResult list \<Rightarrow> Duration list" where
  "parsed e rs = map (\<lambda>r. time_ParseDuration e (Duration r)) (filter succeeded rs)"

definition average :: "Duration list \<Rightarrow> string" where
  "average ds =
     (if ds = [] then [] else Duration_String (int64_div (sum_list ds) (of_nat (length ds))))"

definition cycleReport :: "env \<Rightarrow> string \<Rightarrow> int \<Rightarrow> int \<Rightarrow> CycleStats" where
  "cycleReport e url n cycle =
     (let rs = channel e url n cycle
      in \<lparr>CycleNumber = cycle,
          TotalRequests = int (length rs),
          SuccessCount = int (length (filter succeeded rs)),
          ErrorCount = int (length (filter (\<lambda>r. \<not> succeeded r) rs)),
          AvgDurationMS = average (parsed e rs),
          ResponseCodes = histogram Map.empty rs\<rparr>)"

definition received :: "env \<Rightarrow> string \<Rightarrow> int \<Rightarrow> int \<Rightarrow> RequestResult list" where
  "received e url n m = concat (map (channel e url n) [1..m])"

definition control :: "int \<Rightarrow> int \<Rightarrow> event list" where
  "control n m = concat (map (\<lambda>c. Progress c # map (Go c) (launched n)) [1..m])"

definition after :: "env \<Rightarrow> string \<Rightarrow> int \<Rightarrow> int \<Rightarrow> run_state" where
  "after e url n m =
     (let rs = received e url n m
      in \<lparr>rep = \<lparr>TotalRequests = int (length rs),
                 SuccessCount = int (length (filter succeeded rs)),
                 ErrorCount = int (length (filter (\<lambda>r. \<not> succeeded r) rs)),
                 AvgDurationMS = [],
                 ResponseCodes = histogram Map.empty rs,
                 CycleDetails = map (cycleReport e url n) [1..m]\<rparr>,
          durations = parsed e rs,
          trace = control n m\<rparr>)"

text \<open>The arguments of the calls of \<^verbatim>\<open>progress\<close> in a trace, in order.\<close>

fun progressArgs :: "event list \<Rightarrow> int list" where
  "progressArgs [] = []"
| "progressArgs (Progress c # evs) = c # progressArgs evs"
| "progressArgs (Go c i # evs) = progressArgs evs"

text \<open>The statistics of a cycle without probes.\<close>

definition emptyCycle :: "int \<Rightarrow> CycleStats" where
  "emptyCycle cycle =
     \<lparr>CycleNumber = cycle, TotalRequests = 0, SuccessCount = 0, ErrorCount = 0,
      AvgDurationMS = [], ResponseCodes = Map.empty\<rparr>"

text \<open>
  The quotient the engine reports for a list of latencies: their \<^verbatim>\<open>int64\<close> sum divided
  by their number. The mean of the per-cycle quotients, over the cycles that have one, is
  what the run-level average is not.
\<close>

definition int64_mean :: "Duration list \<Rightarrow> Duration" where
  "int64_mean ds = int64_div (sum_list ds) (of_nat (length ds))"

definition meanOfMeans :: "env \<Rightarrow> string \<Rightarrow> int \<Rightarrow> int \<Rightarrow> Duration" where
  "meanOfMeans e url n m =
     int64_mean (map (\<lambda>c. int64_mean (latencies e url n c))
                 (filter (\<lambda>c. latencies e url n c \<noteq> []) [1..m]))"

text \<open>
  The contract of the library that the engine relies on when it sends a latency through a
  string: \<^verbatim>\<open>time.ParseDuration\<close> reads back what \<^verbatim>\<open>Duration.String\<close> printed, here
  for the latencies of the answered probes of a run.
\<close>

definition roundTrips :: "env \<Rightarrow> string \<Rightarrow> int \<Rightarrow> int \<Rightarrow> bool" where
  "roundTrips e url n m =
     (\<forall>c \<in> set [1..m]. \<forall>i \<in> set (okIDs e url n c).
        time_ParseDuration e (Duration_String (elapsed e c i)) = elapsed e c i)"

section \<open>A small world for concrete runs\<close>

text \<open>
  Two probes per cycle. In cycle 1 both are answered (200 and 500) after 1 ms each and the
  second probe reaches the channel first; in cycle 2 the first is answered after 6 ms and
  the second is refused. The runtime grants \<open>2\<^sup>4\<^sup>8 - 96\<close> bytes to the buffer of a
  channel, a limit of the size found on 64-bit platforms. The two library functions are
  given by their values on the strings that occur.
\<close>

definition demoURL :: string where
  "demoURL = ''http://localhost:8025/''"

definition demo :: env where
  "demo =
     \<lparr>http_Get = (\<lambda>url cycle i.
          if cycle = 2 \<and> i = 1 then Failure (url_Error ''Get'' url ''connection refused'')
          else if i = 0 then Response ''200 OK''
          else Response ''500 Internal Server Error''),
      elapsed = (\<lambda>cycle i. if cycle = 1 then 1000000 else 6000000),
      arrival = (\<lambda>cycle. if cycle = 1 then [1] else []),
      makechanLimit = 281474976710560,
      strconv_Quote = (\<lambda>s. [CHR 0x22] @ s @ [CHR 0x22]),
      time_ParseDuration =
        (\<lambda>s. if s = ''1ms'' then 1000000 else if s = ''6ms'' then 6000000 else 0)\<rparr>"


text \<open>The same world with the server down: every probe is refused.\<close>

definition down :: env where
  "down = demo\<lparr>http_Get := (\<lambda>url cycle i. Failure (url_Error ''Get'' url ''connection refused''))\<rparr>"


text \<open>A width beyond what \<^verbatim>\<open>make\<close> accepts, \<open>2\<^sup>6\<^sup>2\<close>: the bytes of the buffer
  overflow a \<^verbatim>\<open>uintptr\<close>, whatever the limit of the runtime.\<close>

definition hugeWidth :: int where
  "hugeWidth = 4611686018427387904"

section \<open>The loops in closed form\<close>

lemma sumDurations_eq: "sumDurations a ds = a + sum_list ds"
  by (induction ds arbitrary: a) (simp_all add: add.assoc)

lemma calculateAverageDuration_Inr:
  "ds \<noteq> [] \<Longrightarrow>
   calculateAverageDuration ds = Inr (int64_div (sum_list ds) (of_nat (length ds)))"
  by (simp add: calculateAverageDuration_def sumDurations_eq)

lemma histogram_Nil: "histogram m [] = m"
  by (simp add: histogram_def)

lemma histogram_Cons:
  "histogram m (r # rs) =
     (if succeeded r then histogram (incr m (scanStatusCode (Status r))) rs else histogram m rs)"
  by (simp add: histogram_def)

lemma parsed_Nil: "parsed e [] = []"
  by (simp add: parsed_def)

lemma parsed_Cons:
  "parsed e (r # rs) =
     (if succeeded r then time_ParseDuration e (Duration r) # parsed e rs else parsed e rs)"
  by (simp add: parsed_def)

lemma rangeResults_closed:
  "rangeResults e rs t =
     \<lparr>report = (report t)
        \<lparr>Report.TotalRequests := Report.TotalRequests (report t) + int (length rs),
         Report.SuccessCount :=
           Report.SuccessCount (report t) + int (length (filter succeeded rs)),
         Report.ErrorCount :=
           Report.ErrorCount (report t) + int (length (filter (\<lambda>r. \<not> succeeded r) rs)),
         Report.ResponseCodes := histogram (Report.ResponseCodes (report t)) rs\<rparr>,
      cycleStats = (cycleStats t)
        \<lparr>CycleStats.TotalRequests := CycleStats.TotalRequests (cycleStats t) + int (length rs),
         CycleStats.SuccessCount :=
           CycleStats.SuccessCount (cycleStats t) + int (length (filter succeeded rs)),
         CycleStats.ErrorCount :=
           CycleStats.ErrorCount (cycleStats t)
             + int (length (filter (\<lambda>r. \<not> succeeded r) rs)),
         CycleStats.ResponseCodes := histogram (CycleStats.ResponseCodes (cycleStats t)) rs\<rparr>,
      totalDurations = totalDurations t @ parsed e rs,
      cycleDurations = cycleDurations t @ parsed e rs\<rparr>"
proof (induction rs arbitrary: t)
  case Nil
  show ?case by (simp add: histogram_Nil parsed_Nil)
next
  case (Cons r rs)
  show ?case
    by (simp add: Cons.IH collect_def Let_def histogram_Cons parsed_Cons)
qed


lemma histogram_append: "histogram m (xs @ ys) = histogram (histogram m xs) ys"
  by (simp add: histogram_def)

lemma parsed_append: "parsed e (xs @ ys) = parsed e xs @ parsed e ys"
  by (simp add: parsed_def)

lemma upto_snoc: "0 \<le> k \<Longrightarrow> [1..k + 1] = [1..k] @ [k + 1]"
  using upto_rec2 [of 1 "k + 1"] by simp

lemma received_step: "0 \<le> k \<Longrightarrow> received e url n (k + 1) = received e url n k @ channel e url n (k + 1)"
  by (simp add: received_def upto_snoc)

lemma control_step:
  "0 \<le> k \<Longrightarrow> control n (k + 1) = control n k @ Progress (k + 1) # map (Go (k + 1)) (launched n)"
  by (simp add: control_def upto_snoc)

lemma CycleStats_avg_same:
  "CycleStats.AvgDurationMS cs = a \<Longrightarrow> cs\<lparr>CycleStats.AvgDurationMS := a\<rparr> = cs"
  by (cases cs) simp

lemma Report_avg_same:
  "Report.AvgDurationMS r = a \<Longrightarrow> r\<lparr>Report.AvgDurationMS := a\<rparr> = r"
  by (cases r) simp

lemma makechan_accepts_nonneg: "\<not> makechan_panics e n \<Longrightarrow> 0 \<le> n"
  by (simp add: makechan_panics_def Let_def)

lemma makechan_accepts_0: "\<not> makechan_panics e 0"
  by (simp add: makechan_panics_def Let_def)

lemma cycleBody_after:
  assumes "\<not> makechan_panics e n" and "0 \<le> k"
  shows "cycleBody e url n (k + 1) (after e url n k) = Inr (after e url n (k + 1))"
proof -
  let ?t = "rangeResults e (channel e url n (k + 1))
              \<lparr>report = rep (after e url n k),
               cycleStats = \<lparr>CycleNumber = k + 1, TotalRequests = 0, SuccessCount = 0,
                             ErrorCount = 0, AvgDurationMS = [], ResponseCodes = Map.empty\<rparr>,
               totalDurations = durations (after e url n k),
               cycleDurations = []\<rparr>"
  have unset: "(cycleStats ?t)\<lparr>CycleStats.AvgDurationMS := []\<rparr> = cycleStats ?t"
    by (rule CycleStats_avg_same) (simp add: rangeResults_closed)
  have body: "cycleBody e url n (k + 1) (after e url n k) =
      Inr \<lparr>rep = (report ?t)\<lparr>CycleDetails := CycleDetails (report ?t)
                      @ [(cycleStats ?t)\<lparr>CycleStats.AvgDurationMS := average (cycleDurations ?t)\<rparr>]\<rparr>,
           durations = totalDurations ?t,
           trace = trace (after e url n k) @ Progress (k + 1) # map (Go (k + 1)) (launched n)\<rparr>"
    using assms(1) unset
    by (cases "cycleDurations ?t")
      (simp_all add: cycleBody_def Let_def average_def calculateAverageDuration_Inr)
  show ?thesis
    unfolding body
    by (simp add: rangeResults_closed after_def Let_def received_step control_step upto_snoc
        assms(2) histogram_append parsed_append cycleReport_def)
qed

lemma cycleLoop_after:
  assumes "\<not> makechan_panics e n"
  shows "1 \<le> c \<Longrightarrow> cycleLoop e url n m c (after e url n (c - 1)) = Inr (after e url n (max m (c - 1)))"
proof (induction "nat (m + 1 - c)" arbitrary: c)
  case 0
  then have "m < c" by simp
  then show ?case by (simp add: cycleLoop.simps max_def)
next
  case (Suc j)
  then have le: "c \<le> m" by simp
  have "cycleBody e url n c (after e url n (c - 1)) = Inr (after e url n c)"
    using cycleBody_after [OF assms, of "c - 1"] Suc.prems by simp
  moreover have "cycleLoop e url n m (c + 1) (after e url n c) = Inr (after e url n (max m c))"
    using Suc.hyps(1) [of "c + 1"] Suc.hyps(2) Suc.prems by simp
  ultimately show ?case
    using le by (subst cycleLoop.simps) (simp add: max_def)
qed

lemma after_nonpos: "m \<le> 0 \<Longrightarrow> after e url n m = after e url n 0"
  by (simp add: after_def received_def control_def)

lemma runAPITest_closed:
  assumes "\<not> makechan_panics e n"
  shows "runAPITest e url n m =
           Inr ((rep (after e url n m))\<lparr>Report.AvgDurationMS := average (durations (after e url n m))\<rparr>,
                trace (after e url n m))"
proof -
  have init: "\<lparr>rep = \<lparr>TotalRequests = 0, SuccessCount = 0, ErrorCount = 0, AvgDurationMS = [],
                       ResponseCodes = Map.empty, CycleDetails = []\<rparr>,
                durations = [], trace = []\<rparr> = after e url n (1 - 1)"
    by (simp add: after_def received_def control_def histogram_Nil parsed_Nil)
  have m: "after e url n (max m (1 - 1)) = after e url n m"
    using after_nonpos [of m e url n] by (simp add: max_def)
  have loop: "cycleLoop e url n m 1
                \<lparr>rep = \<lparr>TotalRequests = 0, SuccessCount = 0, ErrorCount = 0, AvgDurationMS = [],
                        ResponseCodes = Map.empty, CycleDetails = []\<rparr>,
                 durations = [], trace = []\<rparr> = Inr (after e url n m)"
    unfolding init using cycleLoop_after [OF assms, of 1 url m] m by simp
  have unset: "(rep (after e url n m))\<lparr>Report.AvgDurationMS := []\<rparr> = rep (after e url n m)"
    by (rule Report_avg_same) (simp add: after_def Let_def)
  show ?thesis
    unfolding runAPITest_def loop using unset
    by (cases "durations (after e url n m)")
      (simp_all add: average_def calculateAverageDuration_Inr)
qed


lemma mset_arrive: "mset (arrive ks xs) = mset xs"
proof (induction ks xs rule: arrive.induct)
  case (3 k ks x xs)
  let ?l = "x # xs"
  let ?i = "k mod length ?l"
  have i: "?i < length ?l" by simp
  have "mset ?l = mset (take ?i ?l @ ?l ! ?i # drop (Suc ?i) ?l)"
    using id_take_nth_drop [OF i] by simp
  then have eq: "mset ?l = add_mset (?l ! ?i) (mset (take ?i ?l @ drop (Suc ?i) ?l))"
    by simp
  have "mset (arrive (k # ks) ?l) = add_mset (?l ! ?i) (mset (arrive ks (take ?i ?l @ drop (Suc ?i) ?l)))"
    by (simp add: Let_def)
  also have "\<dots> = add_mset (?l ! ?i) (mset (take ?i ?l @ drop (Suc ?i) ?l))"
    using 3 by (simp add: Let_def)
  finally show ?case using eq by simp
qed simp_all

text \<open>The schedule reaches every order of the sends of a cycle, and nothing else.\<close>

lemma arrive_any_order:
  "mset ys = mset xs \<Longrightarrow> \<exists>ks. arrive ks xs = ys"
proof (induction ys arbitrary: xs)
  case Nil
  then show ?case by simp
next
  case (Cons y ys)
  from Cons.prems have "set (y # ys) = set xs"
    by (rule mset_eq_setD)
  then have "y \<in> set xs"
    by auto
  then obtain i where i: "i < length xs" and y: "xs ! i = y"
    by (auto simp: in_set_conv_nth)
  let ?rest = "take i xs @ drop (Suc i) xs"
  have "mset xs = mset (take i xs @ xs ! i # drop (Suc i) xs)"
    using id_take_nth_drop [OF i] by simp
  then have "mset xs = add_mset y (mset ?rest)"
    using y by simp
  then have "mset ys = mset ?rest"
    using Cons.prems by simp
  then obtain ks where ks: "arrive ks ?rest = ys"
    using Cons.IH by blast
  obtain x xs' where xs: "xs = x # xs'"
    using i by (cases xs) auto
  have "arrive (i # ks) (x # xs') = (x # xs') ! i # arrive ks (take i (x # xs') @ drop (Suc i) (x # xs'))"
    using i unfolding xs by (simp add: Let_def)
  then have "arrive (i # ks) xs = y # ys"
    using ks y by (simp add: xs)
  then show ?case by blast
qed

lemma length_arrive: "length (arrive ks xs) = length xs"
  using mset_arrive [of ks xs] by (metis size_mset)

lemma length_launched: "length (launched n) = nat n"
  by (simp add: launched_def)

lemma length_channel: "length (channel e url n c) = nat n"
  by (simp add: channel_def length_arrive length_launched)

lemma url_Error_Error_nonempty: "url_Error_Error e err \<noteq> []"
  by (cases err) (simp add: url_Error_Error_def)

lemma succeeded_checkStatus: "succeeded (checkStatus e c url i) = answered e url c i"
  by (simp add: succeeded_def checkStatus_def answered_def Let_def url_Error_Error_nonempty
      split: get_result.split)

lemma Status_checkStatus: "Status (checkStatus e c url i) = statusLine e url c i"
  by (simp add: checkStatus_def statusLine_def Let_def split: get_result.split)

lemma Duration_checkStatus: "Duration (checkStatus e c url i) = Duration_String (elapsed e c i)"
  by (simp add: checkStatus_def Let_def split: get_result.split)

lemma mset_filter_channel:
  "mset (filter succeeded (channel e url n c)) = mset (map (checkStatus e c url) (okIDs e url n c))"
proof -
  have "mset (filter succeeded (channel e url n c))
          = filter_mset succeeded (mset (map (checkStatus e c url) (launched n)))"
    by (simp add: channel_def mset_arrive)
  also have "\<dots> = mset (filter succeeded (map (checkStatus e c url) (launched n)))"
    by simp
  also have "\<dots> = mset (map (checkStatus e c url) (okIDs e url n c))"
    by (simp add: okIDs_def filter_map comp_def succeeded_checkStatus)
  finally show ?thesis .
qed

lemma length_filter_channel:
  "length (filter succeeded (channel e url n c)) = length (okIDs e url n c)"
  using mset_filter_channel [of e url n c] by (metis size_mset length_map)

lemma mset_codes:
  "mset (map (\<lambda>r. scanStatusCode (Status r)) (filter succeeded (channel e url n c)))
     = mset (codes e url n c)"
proof -
  have "mset (map (\<lambda>r. scanStatusCode (Status r)) (filter succeeded (channel e url n c)))
          = image_mset (\<lambda>r. scanStatusCode (Status r)) (mset (filter succeeded (channel e url n c)))"
    by simp
  also have "\<dots> = mset (codes e url n c)"
    unfolding mset_filter_channel
    by (simp add: codes_def comp_def Status_checkStatus multiset.map_comp)
  finally show ?thesis .
qed

lemma mset_parsed:
  "mset (parsed e (channel e url n c))
     = mset (map (\<lambda>i. time_ParseDuration e (Duration_String (elapsed e c i))) (okIDs e url n c))"
proof -
  have "mset (parsed e (channel e url n c))
          = image_mset (\<lambda>r. time_ParseDuration e (Duration r)) (mset (filter succeeded (channel e url n c)))"
    by (simp add: parsed_def)
  also have "\<dots> = mset (map (\<lambda>i. time_ParseDuration e (Duration_String (elapsed e c i))) (okIDs e url n c))"
    unfolding mset_filter_channel
    by (simp add: comp_def Duration_checkStatus multiset.map_comp)
  finally show ?thesis .
qed

lemma index_map_incr: "index_map (incr m k) j = index_map m j + (if j = k then 1 else 0)"
  by (simp add: incr_def index_map_def)

lemma dom_incr: "dom (incr m k) = insert k (dom m)"
  by (simp add: incr_def)

lemma index_map_foldl_incr:
  "index_map (foldl incr m ks) j = index_map m j + int (count_list ks j)"
  by (induction ks arbitrary: m) (simp_all add: index_map_incr)

lemma dom_foldl_incr: "dom (foldl incr m ks) = dom m \<union> set ks"
  by (induction ks arbitrary: m) (auto simp: dom_incr)

lemma histSum_incr:
  assumes "finite (dom m)"
  shows "histSum (incr m k) = histSum m + 1"
proof -
  let ?A = "dom m - {k}"
  have fin: "finite ?A" using assms by simp
  have dom: "dom (incr m k) = insert k ?A"
    by (auto simp: dom_incr)
  have same: "(\<Sum>j \<in> ?A. index_map (incr m k) j) = (\<Sum>j \<in> ?A. index_map m j)"
    by (rule sum.cong) (simp_all add: index_map_incr)
  have "histSum (incr m k) = index_map (incr m k) k + (\<Sum>j \<in> ?A. index_map (incr m k) j)"
    unfolding histSum_def dom by (rule sum.insert) (use fin in auto)
  also have "\<dots> = index_map m k + 1 + (\<Sum>j \<in> ?A. index_map m j)"
    unfolding same by (simp add: index_map_incr)
  finally have step: "histSum (incr m k) = index_map m k + (\<Sum>j \<in> ?A. index_map m j) + 1"
    by simp
  have "index_map m k + (\<Sum>j \<in> ?A. index_map m j) = histSum m"
  proof (cases "k \<in> dom m")
    case True
    then show ?thesis
      using assms by (simp add: histSum_def sum.remove [of "dom m" k])
  next
    case False
    then have "index_map m k = 0" by (auto simp: index_map_def dom_def)
    with False show ?thesis by (simp add: histSum_def)
  qed
  with step show ?thesis by simp
qed

lemma histSum_foldl_incr:
  "finite (dom m) \<Longrightarrow> histSum (foldl incr m ks) = histSum m + int (length ks)"
  by (induction ks arbitrary: m) (simp_all add: histSum_incr dom_incr)

section \<open>What a run returns\<close>


lemma runAPITest_refused:
  assumes "makechan_panics e n" and "1 \<le> m"
  shows "runAPITest e url n m = Inl (MakechanSizeOutOfRange, [Progress 1])"
  using assms by (simp add: runAPITest_def cycleLoop.simps [of e url n m 1] cycleBody_def)

lemma runAPITest_idle:
  assumes "m < 1"
  shows "runAPITest e url n m =
           Inr (\<lparr>TotalRequests = 0, SuccessCount = 0, ErrorCount = 0, AvgDurationMS = [],
                 ResponseCodes = Map.empty, CycleDetails = []\<rparr>, [])"
  using assms by (simp add: runAPITest_def cycleLoop.simps [of e url n m 1])

lemma run_returns:
  "\<not> makechan_panics e n \<Longrightarrow> \<exists>r. runAPITest e url n m = Inr (r, control n m)
      \<and> Report.TotalRequests r = int (length (received e url n m))
      \<and> Report.SuccessCount r = int (length (filter succeeded (received e url n m)))
      \<and> Report.ErrorCount r = int (length (filter (\<lambda>r. \<not> succeeded r) (received e url n m)))
      \<and> Report.ResponseCodes r = histogram Map.empty (received e url n m)
      \<and> Report.AvgDurationMS r = average (parsed e (received e url n m))
      \<and> CycleDetails r = map (cycleReport e url n) [1..m]"
  by (simp add: runAPITest_closed after_def Let_def)

lemma length_split: "length (filter P xs) + length (filter (\<lambda>x. \<not> P x) xs) = length xs"
  by (induction xs) simp_all

lemma cycleReport_counts:
  assumes "0 \<le> n"
  shows "CycleStats.TotalRequests (cycleReport e url n c) = n"
    and "CycleStats.SuccessCount (cycleReport e url n c)
           + CycleStats.ErrorCount (cycleReport e url n c) = n"
    and "CycleNumber (cycleReport e url n c) = c"
proof -
  show "CycleStats.TotalRequests (cycleReport e url n c) = n"
    using assms by (simp add: cycleReport_def Let_def length_channel)
  have "int (length (filter succeeded (channel e url n c)))
          + int (length (filter (\<lambda>r. \<not> succeeded r) (channel e url n c)))
        = int (length (channel e url n c))"
    using length_split [of succeeded "channel e url n c"] by linarith
  then show "CycleStats.SuccessCount (cycleReport e url n c)
           + CycleStats.ErrorCount (cycleReport e url n c) = n"
    using assms by (simp add: cycleReport_def Let_def length_channel)
  show "CycleNumber (cycleReport e url n c) = c"
    by (simp add: cycleReport_def Let_def)
qed

section \<open>Printed durations\<close>

lemma fmtInt_loop_nonempty: "buf \<noteq> [] \<Longrightarrow> fmtInt_loop buf v \<noteq> []"
  by (induction buf v rule: fmtInt_loop.induct) (subst fmtInt_loop.simps, simp)

lemma fmtInt_nonempty: "fmtInt buf v \<noteq> []"
proof (cases "v = 0")
  case True
  then show ?thesis by (simp add: fmtInt_def)
next
  case False
  then have "fmtInt buf v = fmtInt_loop (digitChar (v mod 10) # buf) (v div 10)"
    by (simp add: fmtInt_def fmtInt_loop.simps [of buf v])
  then show ?thesis by (simp add: fmtInt_loop_nonempty)
qed

lemma Duration_String_nonempty: "Duration_String d \<noteq> []"
  by (simp add: Duration_String_def Let_def fmtInt_nonempty split: prod.split)

lemma Duration_String_0: "Duration_String 0 = ''0s''"
  by (simp add: Duration_String_def Second_def)

section \<open>The small world, evaluated\<close>

lemma digitChar_nth: "d < 10 \<Longrightarrow> digitChar d = ''0123456789'' ! d"
proof -
  assume "d < 10"
  then have "d \<in> {0,1,2,3,4,5,6,7,8,9}" by auto
  then show ?thesis
    by (auto simp: digitChar_def char_of_def bit_Suc_0_iff)
qed

lemmas ds_eval = Duration_String_def fmtFrac_def fmtInt_def fmtFrac_loop.simps fmtInt_loop.simps
  Let_def digitChar_nth Second_def Millisecond_def Microsecond_def

lemma String_1ms: "Duration_String 1000000 = ''1ms''" by (simp add: ds_eval)
lemma String_6ms: "Duration_String 6000000 = ''6ms''" by (simp add: ds_eval)
lemma String_avg: "Duration_String 2666666 = ''2.666666ms''" by (simp add: ds_eval)

lemma scan200: "scanStatusCode ''200 OK'' = 200"
  by (simp add: scanStatusCode_def Sscanf_d_def SkipSpace.simps sign_def decimalDigits_def decimal_def)
lemma scan500: "scanStatusCode ''500 Internal Server Error'' = 500"
  by (simp add: scanStatusCode_def Sscanf_d_def SkipSpace.simps sign_def decimalDigits_def decimal_def)


lemma launched_2: "launched 2 = [0, 1]"
  by (simp add: launched_def upto.simps)

lemma demo_probe_1_0:
  "checkStatus demo 1 demoURL 0 =
     \<lparr>ID = 0, URL = demoURL, Status = ''200 OK'', Error = [], Duration = ''1ms''\<rparr>"
  by (simp add: checkStatus_def demo_def Let_def String_1ms)

lemma demo_probe_1_1:
  "checkStatus demo 1 demoURL 1 =
     \<lparr>ID = 1, URL = demoURL, Status = ''500 Internal Server Error'', Error = [],
      Duration = ''1ms''\<rparr>"
  by (simp add: checkStatus_def demo_def Let_def String_1ms)

lemma demo_probe_2_0:
  "checkStatus demo 2 demoURL 0 =
     \<lparr>ID = 0, URL = demoURL, Status = ''200 OK'', Error = [], Duration = ''6ms''\<rparr>"
  by (simp add: checkStatus_def demo_def Let_def String_6ms)

lemma demo_probe_2_1:
  "checkStatus demo 2 demoURL 1 =
     \<lparr>ID = 1, URL = demoURL, Status = [],
      Error = ''Get '' @ [CHR 0x22] @ demoURL @ [CHR 0x22] @ '': connection refused'',
      Duration = ''6ms''\<rparr>"
  by (simp add: checkStatus_def demo_def Let_def String_6ms url_Error_Error_def)

lemma demo_channel_1:
  "channel demo demoURL 2 1 = [checkStatus demo 1 demoURL 1, checkStatus demo 1 demoURL 0]"
  by (simp add: channel_def launched_2 demo_def)

lemma demo_channel_2:
  "channel demo demoURL 2 2 = [checkStatus demo 2 demoURL 0, checkStatus demo 2 demoURL 1]"
  by (simp add: channel_def launched_2 demo_def)


lemma demo_parse_1ms: "time_ParseDuration demo ''1ms'' = 1000000"
  by (simp add: demo_def)

lemma demo_parse_6ms: "time_ParseDuration demo ''6ms'' = 6000000"
  by (simp add: demo_def)

lemma div_2: "int64_div 2000000 2 = 1000000"
  by (simp add: int64_div_def signed_divide_int_def)

lemma div_1: "int64_div 6000000 1 = 6000000"
  by (simp add: int64_div_def signed_divide_int_def)

lemma div_3: "int64_div 8000000 3 = 2666666"
  by (simp add: int64_div_def signed_divide_int_def)

lemmas demo_eval = demo_channel_1 demo_channel_2 demo_probe_1_0 demo_probe_1_1 demo_probe_2_0
  demo_probe_2_1 succeeded_def histogram_def parsed_def average_def scan200 scan500 incr_def
  index_map_def demo_parse_1ms demo_parse_6ms div_1 div_2 div_3 String_1ms String_6ms String_avg

lemma demo_cycle_1:
  "cycleReport demo demoURL 2 1 =
     \<lparr>CycleNumber = 1, TotalRequests = 2, SuccessCount = 2, ErrorCount = 0,
      AvgDurationMS = ''1ms'', ResponseCodes = [500 \<mapsto> 1, 200 \<mapsto> 1]\<rparr>"
  by (simp add: cycleReport_def demo_eval)

lemma demo_cycle_2:
  "cycleReport demo demoURL 2 2 =
     \<lparr>CycleNumber = 2, TotalRequests = 2, SuccessCount = 1, ErrorCount = 1,
      AvgDurationMS = ''6ms'', ResponseCodes = [200 \<mapsto> 1]\<rparr>"
  by (simp add: cycleReport_def demo_eval)

lemma upto_1_2: "[1..2] = [1, 2]"
  by (simp add: upto.simps)

lemma demo_answers:
  "http_Get demo u 1 0 = Response ''200 OK''"
  "http_Get demo u 1 1 = Response ''500 Internal Server Error''"
  "http_Get demo u 2 0 = Response ''200 OK''"
  "http_Get demo u 2 1 = Failure (url_Error ''Get'' u ''connection refused'')"
  by (simp_all add: demo_def)

lemma demo_sel:
  "elapsed demo 1 i = 1000000"
  "elapsed demo 2 i = 6000000"
  "strconv_Quote demo s = [CHR 0x22] @ s @ [CHR 0x22]"
  by (simp_all add: demo_def)


subsection \<open>The limit of \<^verbatim>\<open>make\<close>\<close>

lemma demo_accepts_2: "\<not> makechan_panics demo 2"
  by (simp add: makechan_panics_def elemSize_def demo_def Let_def)

lemma demo_refuses_hugeWidth: "makechan_panics demo hugeWidth"
  by (simp add: makechan_panics_def elemSize_def demo_def hugeWidth_def Let_def)

lemma hugeWidth_refused:
  "1 \<le> m \<Longrightarrow> runAPITest demo url hugeWidth m = Inl (MakechanSizeOutOfRange, [Progress 1])"
  by (rule runAPITest_refused [OF demo_refuses_hugeWidth])

subsection \<open>The run of the small world\<close>

lemma demo_okIDs:
  "okIDs demo demoURL 2 1 = [0, 1]" "okIDs demo demoURL 2 2 = [0]"
  by (simp_all add: okIDs_def launched_2 answered_def demo_answers)

lemma demo_roundTrips: "roundTrips demo demoURL 2 2"
  by (simp add: roundTrips_def upto_1_2 demo_okIDs demo_sel String_1ms String_6ms
      demo_parse_1ms demo_parse_6ms)

lemma demo_latencies:
  "latencies demo demoURL 2 1 = [1000000, 1000000]" "latencies demo demoURL 2 2 = [6000000]"
  by (simp_all add: latencies_def demo_okIDs demo_sel)

lemma demo_pool: "pool demo demoURL 2 2 = [1000000, 1000000, 6000000]"
  by (simp add: pool_def upto_1_2 demo_latencies)

lemma div_7_2: "int64_div 7000000 2 = 3500000"
  by (simp add: int64_div_def signed_divide_int_def)

lemma demo_meanOfMeans: "meanOfMeans demo demoURL 2 2 = 3500000"
  by (simp add: meanOfMeans_def int64_mean_def upto_1_2 demo_latencies div_1 div_2 div_7_2)

lemma String_3500us: "Duration_String 3500000 = ''3.5ms''"
  by (simp add: ds_eval)

lemma demo_run:
  "runAPITest demo demoURL 2 2 =
     Inr (\<lparr>TotalRequests = 4, SuccessCount = 3, ErrorCount = 1, AvgDurationMS = ''2.666666ms'',
           ResponseCodes = [500 \<mapsto> 1, 200 \<mapsto> 2],
           CycleDetails =
             [\<lparr>CycleNumber = 1, TotalRequests = 2, SuccessCount = 2, ErrorCount = 0,
               AvgDurationMS = ''1ms'', ResponseCodes = [500 \<mapsto> 1, 200 \<mapsto> 1]\<rparr>,
              \<lparr>CycleNumber = 2, TotalRequests = 2, SuccessCount = 1, ErrorCount = 1,
               AvgDurationMS = ''6ms'', ResponseCodes = [200 \<mapsto> 1]\<rparr>]\<rparr>,
          [Progress 1, Go 1 0, Go 1 1, Progress 2, Go 2 0, Go 2 1])"
  by (simp add: runAPITest_closed [OF demo_accepts_2] after_def Let_def received_def control_def
       upto_1_2 launched_2
       demo_cycle_1 demo_cycle_2 demo_eval)


subsection \<open>The server down\<close>

lemma set_channel: "set (channel e url n c) = checkStatus e c url ` set (launched n)"
proof -
  have "set (channel e url n c) = set_mset (mset (channel e url n c))"
    by simp
  also have "\<dots> = set_mset (mset (map (checkStatus e c url) (launched n)))"
    unfolding channel_def mset_arrive ..
  finally show ?thesis by simp
qed

lemma down_accepts_2: "\<not> makechan_panics down 2"
  by (simp add: makechan_panics_def elemSize_def down_def demo_def Let_def)

lemma down_refused: "\<not> succeeded (checkStatus down c url i)"
  by (simp add: succeeded_checkStatus answered_def down_def)

lemma down_channel:
  "filter succeeded (channel down url n c) = []"
  "filter (\<lambda>r. \<not> succeeded r) (channel down url n c) = channel down url n c"
  by (auto simp: filter_empty_conv filter_id_conv set_channel down_refused)

lemma down_cycle:
  "cycleReport down url 2 c =
     \<lparr>CycleNumber = c, TotalRequests = 2, SuccessCount = 0, ErrorCount = 2,
      AvgDurationMS = [], ResponseCodes = Map.empty\<rparr>"
  by (simp add: cycleReport_def Let_def down_channel length_channel histogram_def parsed_def
      average_def)

lemma down_run:
  "runAPITest down demoURL 2 2 =
     Inr (\<lparr>TotalRequests = 4, SuccessCount = 0, ErrorCount = 4, AvgDurationMS = [],
           ResponseCodes = Map.empty,
           CycleDetails =
             [\<lparr>CycleNumber = 1, TotalRequests = 2, SuccessCount = 0, ErrorCount = 2,
               AvgDurationMS = [], ResponseCodes = Map.empty\<rparr>,
              \<lparr>CycleNumber = 2, TotalRequests = 2, SuccessCount = 0, ErrorCount = 2,
               AvgDurationMS = [], ResponseCodes = Map.empty\<rparr>]\<rparr>,
          [Progress 1, Go 1 0, Go 1 1, Progress 2, Go 2 0, Go 2 1])"
  by (simp add: runAPITest_closed [OF down_accepts_2] after_def Let_def received_def control_def
      upto_1_2 launched_2 down_cycle down_channel length_channel histogram_def parsed_def
      average_def)

lemma down_okIDs: "okIDs down url n c = []"
  by (simp add: okIDs_def answered_def down_def)

lemma down_pool: "pool down url n m = []"
  by (simp add: pool_def latencies_def down_okIDs)

subsection \<open>Status lines that do not begin with a digit\<close>



















section \<open>Counting the outcomes of a cycle\<close>

text \<open>
  C1. A cycle of a width \<open>n \<ge> 1\<close> that \<^verbatim>\<open>make\<close> accepts for the channel reduces
  exactly \<open>n\<close> outcomes: the run returns a report with one entry per cycle, and every
  cycle in it has launched \<open>n\<close> probes, found \<open>n\<close> results in its channel, and counted
  \<open>TotalRequests = SuccessCount + ErrorCount = n\<close>. A width that \<^verbatim>\<open>make\<close> refuses
  yields no outcome: the first cycle panics after the call of \<^verbatim>\<open>progress\<close> and before
  any probe is launched, and no report is returned.
\<close>

theorem cycle_counts_width:
  assumes "1 \<le> n"
  shows "(\<not> makechan_panics e n \<longrightarrow>
            (\<exists>r tr. runAPITest e url n m = Inr (r, tr) \<and>
               map CycleNumber (CycleDetails r) = [1..m] \<and>
               (\<forall>cs \<in> set (CycleDetails r).
                  length (launched n) = nat n \<and>
                  length (channel e url n (CycleNumber cs)) = nat n \<and>
                  CycleStats.TotalRequests cs = n \<and>
                  CycleStats.SuccessCount cs + CycleStats.ErrorCount cs = n))) \<and>
         (makechan_panics e n \<and> 1 \<le> m \<longrightarrow>
            runAPITest e url n m = Inl (MakechanSizeOutOfRange, [Progress 1]))"
proof (intro conjI impI)
  assume ok: "\<not> makechan_panics e n"
  have n: "0 \<le> n" using assms by simp
  obtain r where r: "runAPITest e url n m = Inr (r, control n m)"
    and cd: "CycleDetails r = map (cycleReport e url n) [1..m]"
    using run_returns [OF ok, of url m] by blast
  have "map CycleNumber (CycleDetails r) = [1..m]"
    unfolding cd by (simp add: comp_def cycleReport_counts(3) [OF n])
  moreover have "\<forall>cs \<in> set (CycleDetails r).
              length (launched n) = nat n \<and>
              length (channel e url n (CycleNumber cs)) = nat n \<and>
              CycleStats.TotalRequests cs = n \<and>
              CycleStats.SuccessCount cs + CycleStats.ErrorCount cs = n"
    unfolding cd using cycleReport_counts [OF n] by (auto simp: length_launched length_channel)
  ultimately show "\<exists>r tr. runAPITest e url n m = Inr (r, tr) \<and>
               map CycleNumber (CycleDetails r) = [1..m] \<and>
               (\<forall>cs \<in> set (CycleDetails r).
                  length (launched n) = nat n \<and>
                  length (channel e url n (CycleNumber cs)) = nat n \<and>
                  CycleStats.TotalRequests cs = n \<and>
                  CycleStats.SuccessCount cs + CycleStats.ErrorCount cs = n)"
    using r by blast
next
  assume "makechan_panics e n \<and> 1 \<le> m"
  then show "runAPITest e url n m = Inl (MakechanSizeOutOfRange, [Progress 1])"
    by (simp add: runAPITest_refused)
qed

theorem cycle_counts_width_witness:
  "(1::int) \<le> 2 \<and> \<not> makechan_panics demo 2 \<and>
   (\<exists>r tr. runAPITest demo demoURL 2 2 = Inr (r, tr) \<and>
      map CycleNumber (CycleDetails r) = [1, 2] \<and>
      map CycleStats.TotalRequests (CycleDetails r) = [2, 2] \<and>
      map CycleStats.SuccessCount (CycleDetails r) = [2, 1] \<and>
      map CycleStats.ErrorCount (CycleDetails r) = [0, 1] \<and>
      length (launched 2) = 2 \<and>
      length (channel demo demoURL 2 1) = 2 \<and> length (channel demo demoURL 2 2) = 2 \<and>
      (\<forall>cs \<in> set (CycleDetails r).
         CycleStats.TotalRequests cs = 2 \<and>
         CycleStats.SuccessCount cs + CycleStats.ErrorCount cs = 2)) \<and>
   (1::int) \<le> hugeWidth \<and> makechan_panics demo hugeWidth \<and>
   runAPITest demo demoURL hugeWidth 2 = Inl (MakechanSizeOutOfRange, [Progress 1])"
  using cycle_counts_width [of 2 demo demoURL 2] cycle_counts_width [of hugeWidth demo demoURL 2]
  by (simp add: demo_accepts_2 demo_refuses_hugeWidth demo_run length_channel launched_2)
    (simp add: hugeWidth_def)

text \<open>
  As stated for every width \<open>N \<ge> 1\<close>, C1 fails at the width \<open>2\<^sup>6\<^sup>2\<close>: the run panics in
  \<^verbatim>\<open>make\<close> in its first cycle, after the call of \<^verbatim>\<open>progress\<close>; no probe is launched
  and there are no statistics of the cycle.
\<close>

theorem cycle_counts_width_counterexample:
  "(1::int) \<le> hugeWidth \<and> hugeWidth = 2 ^ 62 \<and>
   runAPITest demo demoURL hugeWidth 1 = Inl (MakechanSizeOutOfRange, [Progress 1])"
  by (simp add: hugeWidth_refused) (simp add: hugeWidth_def)

section \<open>The report as the merge of its cycles\<close>

lemma length_concat_int:
  "int (length (concat (map f cs))) = sum_list (map (\<lambda>c. int (length (f c))) cs)"
  by (induction cs) simp_all

lemma length_filter_concat_int:
  "int (length (filter P (concat (map f cs))))
     = sum_list (map (\<lambda>c. int (length (filter P (f c)))) cs)"
  by (induction cs) simp_all

lemma index_map_empty: "index_map Map.empty k = 0"
  by (simp add: index_map_def)

lemma index_map_histogram:
  "index_map (histogram m rs) k = index_map m k + index_map (histogram Map.empty rs) k"
  by (simp add: histogram_def index_map_foldl_incr index_map_empty)

lemma index_map_histogram_concat:
  "index_map (histogram Map.empty (concat (map f cs))) k
     = sum_list (map (\<lambda>c. index_map (histogram Map.empty (f c)) k) cs)"
proof (induction cs)
  case Nil
  show ?case by (simp add: histogram_Nil index_map_empty)
next
  case (Cons c cs)
  have "index_map (histogram Map.empty (f c @ concat (map f cs))) k
          = index_map (histogram Map.empty (f c)) k
            + index_map (histogram Map.empty (concat (map f cs))) k"
    unfolding histogram_append by (rule index_map_histogram)
  then show ?case using Cons by simp
qed

lemma dom_histogram:
  "dom (histogram m rs) = dom m \<union> (\<lambda>r. scanStatusCode (Status r)) ` {r \<in> set rs. succeeded r}"
  by (auto simp: histogram_def dom_foldl_incr)

lemma dom_histogram_concat:
  "dom (histogram Map.empty (concat (map f cs)))
     = (\<Union>c \<in> set cs. dom (histogram Map.empty (f c)))"
  by (auto simp: dom_histogram)

lemma sum_list_const: "sum_list (map (\<lambda>c. k) cs) = k * int (length cs)"
  by (induction cs) (simp_all add: algebra_simps)

lemma cycleReport_sel:
  "CycleNumber (cycleReport e url n c) = c"
  "CycleStats.TotalRequests (cycleReport e url n c) = int (length (channel e url n c))"
  "CycleStats.SuccessCount (cycleReport e url n c)
     = int (length (filter succeeded (channel e url n c)))"
  "CycleStats.ErrorCount (cycleReport e url n c)
     = int (length (filter (\<lambda>r. \<not> succeeded r) (channel e url n c)))"
  "CycleStats.AvgDurationMS (cycleReport e url n c) = average (parsed e (channel e url n c))"
  "CycleStats.ResponseCodes (cycleReport e url n c) = histogram Map.empty (channel e url n c)"
  by (simp_all add: cycleReport_def Let_def)

text \<open>
  C2. For a run of \<open>m \<ge> 1\<close> cycles, of a width that \<^verbatim>\<open>make\<close> accepts for the channel,
  the report is the merge of its cycles: each of the three counters is the sum of the
  cycles' counters, \<open>TotalRequests\<close> is width times cycle count, every histogram bucket
  (read as Go reads a map) is the sum of the cycles' buckets and the keys are the union of
  the cycles' keys, and \<open>CycleDetails\<close> has one entry per cycle with the cycle numbers
  \<open>1, \<dots>, m\<close> in this order. (A run of a width that \<^verbatim>\<open>make\<close> refuses panics and
  returns no report.)
\<close>
theorem report_merges_cycles:
  assumes "\<not> makechan_panics e n" and "1 \<le> m"
  shows "\<exists>r tr. runAPITest e url n m = Inr (r, tr) \<and>
           Report.TotalRequests r = sum_list (map CycleStats.TotalRequests (CycleDetails r)) \<and>
           Report.TotalRequests r = n * m \<and>
           Report.SuccessCount r = sum_list (map CycleStats.SuccessCount (CycleDetails r)) \<and>
           Report.ErrorCount r = sum_list (map CycleStats.ErrorCount (CycleDetails r)) \<and>
           (\<forall>k. index_map (Report.ResponseCodes r) k
                  = sum_list (map (\<lambda>cs. index_map (CycleStats.ResponseCodes cs) k) (CycleDetails r))) \<and>
           dom (Report.ResponseCodes r)
             = (\<Union>cs \<in> set (CycleDetails r). dom (CycleStats.ResponseCodes cs)) \<and>
           length (CycleDetails r) = nat m \<and>
           map CycleNumber (CycleDetails r) = [1..m]"
proof -
  have n: "0 \<le> n"
    using assms(1) by (rule makechan_accepts_nonneg)
  obtain r where r: "runAPITest e url n m = Inr (r, control n m)"
    and tot: "Report.TotalRequests r = int (length (received e url n m))"
    and suc: "Report.SuccessCount r = int (length (filter succeeded (received e url n m)))"
    and err: "Report.ErrorCount r = int (length (filter (\<lambda>r. \<not> succeeded r) (received e url n m)))"
    and hist: "Report.ResponseCodes r = histogram Map.empty (received e url n m)"
    and cd: "CycleDetails r = map (cycleReport e url n) [1..m]"
    using run_returns [OF assms(1), of url m] by blast
  have 1: "Report.TotalRequests r = sum_list (map CycleStats.TotalRequests (CycleDetails r))"
    by (simp add: tot cd received_def length_concat_int cycleReport_sel comp_def)
  have "sum_list (map CycleStats.TotalRequests (CycleDetails r)) = n * int (length [1..m])"
    unfolding cd using cycleReport_counts(1) [OF n]
    by (simp add: comp_def sum_list_const)
  then have 2: "Report.TotalRequests r = n * m"
    using 1 assms(2) by simp
  have 3: "Report.SuccessCount r = sum_list (map CycleStats.SuccessCount (CycleDetails r))"
    by (simp add: suc cd received_def length_filter_concat_int cycleReport_sel comp_def)
  have 4: "Report.ErrorCount r = sum_list (map CycleStats.ErrorCount (CycleDetails r))"
    by (simp add: err cd received_def length_filter_concat_int cycleReport_sel comp_def)
  have 5: "\<forall>k. index_map (Report.ResponseCodes r) k
                  = sum_list (map (\<lambda>cs. index_map (CycleStats.ResponseCodes cs) k) (CycleDetails r))"
    by (simp add: hist cd received_def index_map_histogram_concat cycleReport_sel comp_def)
  have 6: "dom (Report.ResponseCodes r)
             = (\<Union>cs \<in> set (CycleDetails r). dom (CycleStats.ResponseCodes cs))"
    unfolding hist cd received_def dom_histogram_concat
    by (simp add: cycleReport_sel)
  have 7: "length (CycleDetails r) = nat m"
    by (simp add: cd)
  have 8: "map CycleNumber (CycleDetails r) = [1..m]"
    unfolding cd by (simp add: comp_def cycleReport_counts(3) [OF n])
  show ?thesis
    using r 1 2 3 4 5 6 7 8 by blast
qed

theorem report_merges_cycles_witness:
  "\<not> makechan_panics demo 2 \<and> (1::int) \<le> 2 \<and>
   (\<exists>r tr. runAPITest demo demoURL 2 2 = Inr (r, tr) \<and>
      Report.TotalRequests r = 4 \<and>
      map CycleStats.TotalRequests (CycleDetails r) = [2, 2] \<and>
      Report.SuccessCount r = 3 \<and>
      map CycleStats.SuccessCount (CycleDetails r) = [2, 1] \<and>
      Report.ErrorCount r = 1 \<and>
      map CycleStats.ErrorCount (CycleDetails r) = [0, 1] \<and>
      Report.ResponseCodes r = [500 \<mapsto> 1, 200 \<mapsto> 2] \<and>
      map CycleStats.ResponseCodes (CycleDetails r) = [[500 \<mapsto> 1, 200 \<mapsto> 1], [200 \<mapsto> 1]] \<and>
      Report.TotalRequests r = sum_list (map CycleStats.TotalRequests (CycleDetails r)) \<and>
      Report.TotalRequests r = 2 * 2 \<and>
      Report.SuccessCount r = sum_list (map CycleStats.SuccessCount (CycleDetails r)) \<and>
      Report.ErrorCount r = sum_list (map CycleStats.ErrorCount (CycleDetails r)) \<and>
      (\<forall>k. index_map (Report.ResponseCodes r) k
             = sum_list (map (\<lambda>cs. index_map (CycleStats.ResponseCodes cs) k) (CycleDetails r))) \<and>
      dom (Report.ResponseCodes r)
        = (\<Union>cs \<in> set (CycleDetails r). dom (CycleStats.ResponseCodes cs)) \<and>
      length (CycleDetails r) = 2 \<and>
      map CycleNumber (CycleDetails r) = [1, 2])"
  using report_merges_cycles [of demo 2 2 demoURL]
  by (simp add: demo_accepts_2 demo_run upto_1_2)

section \<open>Histograms\<close>

lemma histSum_histogram:
  "histSum (histogram Map.empty rs) = int (length (filter succeeded rs))"
proof -
  have "histSum (Map.empty :: int \<rightharpoonup> int) = 0"
    by (simp add: histSum_def)
  then show ?thesis
    by (simp add: histogram_def histSum_foldl_incr)
qed

lemma dom_histogram_channel:
  "dom (histogram Map.empty (channel e url n c)) = set (codes e url n c)"
proof -
  have "dom (histogram Map.empty (channel e url n c))
          = set_mset (mset (map (\<lambda>r. scanStatusCode (Status r)) (filter succeeded (channel e url n c))))"
    by (simp add: histogram_def dom_foldl_incr)
  also have "\<dots> = set (codes e url n c)"
    unfolding mset_codes by simp
  finally show ?thesis .
qed

text \<open>
  C5. In the report and in every cycle's statistics the values of the histogram sum to
  \<open>SuccessCount\<close>, which is the number of probes that were answered, and the keys of the
  histogram are exactly the status codes scanned from the probes that were answered: a
  probe that failed contributes no bucket. This holds of every run of a width that
  \<^verbatim>\<open>make\<close> accepts for the channel; any other run panics and returns no report.
\<close>
theorem histogram_sums_to_successes:
  assumes "\<not> makechan_panics e n"
  shows "\<exists>r tr. runAPITest e url n m = Inr (r, tr) \<and>
           histSum (Report.ResponseCodes r) = Report.SuccessCount r \<and>
           Report.SuccessCount r = int (length (concat (map (okIDs e url n) [1..m]))) \<and>
           dom (Report.ResponseCodes r) = (\<Union>c \<in> set [1..m]. set (codes e url n c)) \<and>
           map CycleNumber (CycleDetails r) = [1..m] \<and>
           (\<forall>cs \<in> set (CycleDetails r).
              histSum (CycleStats.ResponseCodes cs) = CycleStats.SuccessCount cs \<and>
              CycleStats.SuccessCount cs = int (length (okIDs e url n (CycleNumber cs))) \<and>
              dom (CycleStats.ResponseCodes cs) = set (codes e url n (CycleNumber cs)))"
proof -
  obtain r where r: "runAPITest e url n m = Inr (r, control n m)"
    and suc: "Report.SuccessCount r = int (length (filter succeeded (received e url n m)))"
    and hist: "Report.ResponseCodes r = histogram Map.empty (received e url n m)"
    and cd: "CycleDetails r = map (cycleReport e url n) [1..m]"
    using run_returns [OF assms, of url m] by blast
  have 1: "histSum (Report.ResponseCodes r) = Report.SuccessCount r"
    by (simp add: hist suc histSum_histogram)
  have 2: "Report.SuccessCount r = int (length (concat (map (okIDs e url n) [1..m])))"
    by (simp add: suc received_def length_filter_concat_int length_concat_int
        length_filter_channel)
  have 3: "dom (Report.ResponseCodes r) = (\<Union>c \<in> set [1..m]. set (codes e url n c))"
    unfolding hist received_def dom_histogram_concat dom_histogram_channel ..
  have 4: "map CycleNumber (CycleDetails r) = [1..m]"
    unfolding cd by (simp add: comp_def cycleReport_sel)
  have 5: "\<forall>cs \<in> set (CycleDetails r).
              histSum (CycleStats.ResponseCodes cs) = CycleStats.SuccessCount cs \<and>
              CycleStats.SuccessCount cs = int (length (okIDs e url n (CycleNumber cs))) \<and>
              dom (CycleStats.ResponseCodes cs) = set (codes e url n (CycleNumber cs))"
    unfolding cd
    by (simp add: cycleReport_sel histSum_histogram dom_histogram_channel length_filter_channel)
  show ?thesis using r 1 2 3 4 5 by blast
qed

theorem histogram_sums_to_successes_witness:
  "\<not> makechan_panics demo 2 \<and>
   codes demo demoURL 2 1 = [200, 500] \<and> codes demo demoURL 2 2 = [200] \<and>
   (\<exists>r tr. runAPITest demo demoURL 2 2 = Inr (r, tr) \<and>
      Report.SuccessCount r = 3 \<and> Report.ErrorCount r = 1 \<and>
      Report.ResponseCodes r = [500 \<mapsto> 1, 200 \<mapsto> 2] \<and>
      histSum (Report.ResponseCodes r) = 3 \<and>
      dom (Report.ResponseCodes r) = {200, 500} \<and>
      map CycleStats.SuccessCount (CycleDetails r) = [2, 1] \<and>
      map (\<lambda>cs. histSum (CycleStats.ResponseCodes cs)) (CycleDetails r) = [2, 1] \<and>
      map (\<lambda>cs. dom (CycleStats.ResponseCodes cs)) (CycleDetails r) = [{200, 500}, {200}])"
proof -
  have codes: "codes demo demoURL 2 1 = [200, 500]" "codes demo demoURL 2 2 = [200]"
    by (simp_all add: codes_def demo_okIDs statusLine_def demo_answers scan200 scan500)
  show ?thesis
    using histogram_sums_to_successes [of demo 2 demoURL 2]
    by (simp add: demo_accepts_2 demo_run upto_1_2 codes demo_okIDs)
qed

section \<open>A cycle of width zero\<close>

lemma channel_0: "channel e url 0 c = []"
  by (simp add: channel_def launched_def)

lemma cycleReport_0: "cycleReport e url 0 c = emptyCycle c"
  by (simp add: cycleReport_def emptyCycle_def channel_0 average_def parsed_Nil histogram_Nil)

lemma received_0: "received e url 0 m = []"
  by (simp add: received_def channel_0)

text \<open>
  C7. With width 0 the loop body does not fail: from any state it appends the statistics of
  an empty cycle (all counts 0, no average, empty histogram), and a run of such cycles
  returns a report of zeros whose cycles are all empty.
\<close>
theorem zero_width_cycle_is_empty:
  "cycleBody e url 0 c s =
     Inr \<lparr>rep = (rep s)\<lparr>CycleDetails := CycleDetails (rep s) @ [emptyCycle c]\<rparr>,
          durations = durations s, trace = trace s @ [Progress c]\<rparr>
   \<and> runAPITest e url 0 m =
       Inr (\<lparr>TotalRequests = 0, SuccessCount = 0, ErrorCount = 0, AvgDurationMS = [],
             ResponseCodes = Map.empty, CycleDetails = map emptyCycle [1..m]\<rparr>,
            map Progress [1..m])"
proof
  show "cycleBody e url 0 c s =
     Inr \<lparr>rep = (rep s)\<lparr>CycleDetails := CycleDetails (rep s) @ [emptyCycle c]\<rparr>,
          durations = durations s, trace = trace s @ [Progress c]\<rparr>"
    by (simp add: cycleBody_def Let_def makechan_accepts_0 channel_0 launched_def emptyCycle_def)
  have "concat (map (\<lambda>c. [Progress c]) cs) = map Progress cs" for cs
    by (induction cs) simp_all
  then have "control 0 m = map Progress [1..m]"
    by (simp add: control_def launched_def)
  then show "runAPITest e url 0 m =
       Inr (\<lparr>TotalRequests = 0, SuccessCount = 0, ErrorCount = 0, AvgDurationMS = [],
             ResponseCodes = Map.empty, CycleDetails = map emptyCycle [1..m]\<rparr>,
            map Progress [1..m])"
    by (simp add: runAPITest_closed [OF makechan_accepts_0] after_def Let_def received_0
        cycleReport_0 histogram_Nil parsed_Nil average_def)
qed


theorem zero_width_cycle_is_empty_witness:
  "cycleBody demo demoURL 0 1
     \<lparr>rep = \<lparr>TotalRequests = 0, SuccessCount = 0, ErrorCount = 0, AvgDurationMS = [],
             ResponseCodes = Map.empty, CycleDetails = []\<rparr>,
      durations = [], trace = []\<rparr> =
     Inr \<lparr>rep = \<lparr>TotalRequests = 0, SuccessCount = 0, ErrorCount = 0, AvgDurationMS = [],
                 ResponseCodes = Map.empty, CycleDetails = [emptyCycle 1]\<rparr>,
          durations = [], trace = [Progress 1]\<rparr>
   \<and> runAPITest demo demoURL 0 2 =
       Inr (\<lparr>TotalRequests = 0, SuccessCount = 0, ErrorCount = 0, AvgDurationMS = [],
             ResponseCodes = Map.empty, CycleDetails = [emptyCycle 1, emptyCycle 2]\<rparr>,
            [Progress 1, Progress 2])"
  using zero_width_cycle_is_empty
    [of demo demoURL 1
      "\<lparr>rep = \<lparr>TotalRequests = 0, SuccessCount = 0, ErrorCount = 0, AvgDurationMS = [],
              ResponseCodes = Map.empty, CycleDetails = []\<rparr>,
        durations = [], trace = []\<rparr>" 2]
  by (simp add: upto.simps)

section \<open>The progress callback\<close>

lemma progressArgs_append: "progressArgs (xs @ ys) = progressArgs xs @ progressArgs ys"
  by (induction xs rule: progressArgs.induct) simp_all

lemma progressArgs_Go: "progressArgs (map (Go c) is) = []"
  by (induction "is") simp_all

lemma progressArgs_cycles:
  "progressArgs (concat (map (\<lambda>c. Progress c # map (Go c) is) cs)) = cs"
  by (induction cs) (simp_all add: progressArgs_append progressArgs_Go)

lemma dispatch_after_progress:
  assumes "tr = concat (map (\<lambda>c. Progress c # map (Go c) is) cs)"
    and "j < length tr" and "tr ! j = Go c i"
  shows "\<exists>j' < j. tr ! j' = Progress c"
  using assms
proof (induction cs arbitrary: tr j rule: rev_induct)
  case Nil
  then show ?case by simp
next
  case (snoc d cs)
  let ?old = "concat (map (\<lambda>c. Progress c # map (Go c) is) cs)"
  have tr: "tr = ?old @ Progress d # map (Go d) is"
    using snoc.prems(1) by simp
  show ?case
  proof (cases "j < length ?old")
    case True
    then have "?old ! j = Go c i"
      using snoc.prems(3) by (simp add: tr nth_append)
    then obtain j' where "j' < j" and "?old ! j' = Progress c"
      using snoc.IH [OF refl True] by blast
    then show ?thesis
      using True by (auto simp: tr nth_append intro!: exI [of _ j'])
  next
    case False
    then obtain k where j: "j = length ?old + k" and k: "k < Suc (length is)"
      using snoc.prems(2) by (auto simp: tr intro: that [of "j - length ?old"])
    have at: "tr ! j = (Progress d # map (Go d) is) ! k"
      by (simp add: tr j nth_append)
    have "k \<noteq> 0"
      using at snoc.prems(3) by (cases k) auto
    then obtain k' where k': "k = Suc k'" by (cases k) auto
    then have "c = d"
      using at snoc.prems(3) k by simp
    moreover have "tr ! length ?old = Progress d"
      by (simp add: tr nth_append)
    ultimately show ?thesis
      using j k' by (auto intro!: exI [of _ "length ?old"])
  qed
qed

text \<open>
  C8. In a run of \<open>m \<ge> 1\<close> cycles, of a width that \<^verbatim>\<open>make\<close> accepts for the channel,
  the control goroutine calls \<^verbatim>\<open>progress\<close> exactly \<open>m\<close> times, with the arguments
  \<open>1, \<dots>, m\<close> in this order, and every \<^verbatim>\<open>go\<close> statement of a cycle comes after the
  call of \<^verbatim>\<open>progress\<close> for that cycle: the trace is, cycle by cycle, the call followed
  by the launches of the IDs \<open>0, \<dots>, n - 1\<close>. With a width that \<^verbatim>\<open>make\<close> refuses,
  \<^verbatim>\<open>progress\<close> is called once, with the argument 1, and the run panics before any
  probe is launched.
\<close>
theorem progress_once_per_cycle_before_dispatch:
  assumes "1 \<le> m"
  shows "(\<not> makechan_panics e n \<longrightarrow>
            (\<exists>r tr. runAPITest e url n m = Inr (r, tr) \<and>
               tr = concat (map (\<lambda>c. Progress c # map (Go c) [0..n - 1]) [1..m]) \<and>
               progressArgs tr = [1..m] \<and>
               length (progressArgs tr) = nat m \<and>
               (\<forall>j < length tr. \<forall>c i. tr ! j = Go c i \<longrightarrow> (\<exists>j' < j. tr ! j' = Progress c)))) \<and>
         (makechan_panics e n \<longrightarrow>
            runAPITest e url n m = Inl (MakechanSizeOutOfRange, [Progress 1]))"
proof (intro conjI impI)
  assume ok: "\<not> makechan_panics e n"
  obtain r where r: "runAPITest e url n m = Inr (r, control n m)"
    using run_returns [OF ok, of url m] by blast
  have tr: "control n m = concat (map (\<lambda>c. Progress c # map (Go c) [0..n - 1]) [1..m])"
    by (simp add: control_def launched_def)
  have args: "progressArgs (control n m) = [1..m]"
    unfolding tr by (rule progressArgs_cycles)
  have "\<forall>j < length (control n m). \<forall>c i. control n m ! j = Go c i
          \<longrightarrow> (\<exists>j' < j. control n m ! j' = Progress c)"
    using dispatch_after_progress [OF tr] by blast
  then show "\<exists>r tr. runAPITest e url n m = Inr (r, tr) \<and>
               tr = concat (map (\<lambda>c. Progress c # map (Go c) [0..n - 1]) [1..m]) \<and>
               progressArgs tr = [1..m] \<and>
               length (progressArgs tr) = nat m \<and>
               (\<forall>j < length tr. \<forall>c i. tr ! j = Go c i \<longrightarrow> (\<exists>j' < j. tr ! j' = Progress c))"
    using r tr args by (intro exI [of _ r] exI [of _ "control n m"]) simp
next
  assume "makechan_panics e n"
  then show "runAPITest e url n m = Inl (MakechanSizeOutOfRange, [Progress 1])"
    using assms by (rule runAPITest_refused)
qed

theorem progress_once_per_cycle_before_dispatch_witness:
  "(1::int) \<le> 2 \<and> \<not> makechan_panics demo 2 \<and>
   (\<exists>r tr. runAPITest demo demoURL 2 2 = Inr (r, tr) \<and>
      tr = [Progress 1, Go 1 0, Go 1 1, Progress 2, Go 2 0, Go 2 1] \<and>
      progressArgs tr = [1, 2] \<and>
      length (progressArgs tr) = 2 \<and>
      (\<forall>j < length tr. \<forall>c i. tr ! j = Go c i \<longrightarrow> (\<exists>j' < j. tr ! j' = Progress c))) \<and>
   makechan_panics demo hugeWidth \<and>
   runAPITest demo demoURL hugeWidth 2 = Inl (MakechanSizeOutOfRange, [Progress 1])"
  using progress_once_per_cycle_before_dispatch [of 2 demo 2 demoURL]
    progress_once_per_cycle_before_dispatch [of 2 demo hugeWidth demoURL]
  by (simp add: demo_accepts_2 demo_refuses_hugeWidth demo_run upto_1_2 upto.simps)

text \<open>
  As stated for every run of \<open>cycleCount \<ge> 1\<close> cycles, C8 fails for two cycles of the
  width \<open>2\<^sup>6\<^sup>2\<close>: \<^verbatim>\<open>progress\<close> is called once, with the argument 1, not twice; then
  the run panics in \<^verbatim>\<open>make\<close>.
\<close>

theorem progress_once_per_cycle_counterexample:
  "(1::int) \<le> 2 \<and> hugeWidth = 2 ^ 62 \<and>
   runAPITest demo demoURL hugeWidth 2 = Inl (MakechanSizeOutOfRange, [Progress 1]) \<and>
   progressArgs [Progress 1] = [1] \<and>
   length (progressArgs [Progress 1]) \<noteq> nat 2"
  by (simp add: hugeWidth_refused) (simp add: hugeWidth_def)

section \<open>Classifying a probe\<close>

text \<open>
  C4. A probe is classified by the consumer's test \<^verbatim>\<open>result.Error == ""\<close> as a success
  exactly when \<^verbatim>\<open>http.Get\<close> returned a response. For a response, whatever its status,
  the result carries the status line and no error text, and reducing it counts one success
  and one histogram entry under the scanned status code. For a transport error the result
  carries the error's message, which is never empty, and no status, and reducing it counts
  one error and leaves the histogram alone. The printed latency is there in both cases.
\<close>
theorem probe_outcome_classification:
  "(succeeded (checkStatus e c url i) \<longleftrightarrow> (\<exists>st. http_Get e url c i = Response st)) \<and>
   (\<forall>st. http_Get e url c i = Response st \<longrightarrow>
      Status (checkStatus e c url i) = st \<and> Error (checkStatus e c url i) = [] \<and>
      Report.SuccessCount (report (collect e (checkStatus e c url i) t))
        = Report.SuccessCount (report t) + 1 \<and>
      Report.ErrorCount (report (collect e (checkStatus e c url i) t)) = Report.ErrorCount (report t) \<and>
      Report.ResponseCodes (report (collect e (checkStatus e c url i) t))
        = incr (Report.ResponseCodes (report t)) (scanStatusCode st)) \<and>
   (\<forall>err. http_Get e url c i = Failure err \<longrightarrow>
      Error (checkStatus e c url i) = url_Error_Error e err \<and>
      Error (checkStatus e c url i) \<noteq> [] \<and> Status (checkStatus e c url i) = [] \<and>
      Report.ErrorCount (report (collect e (checkStatus e c url i) t))
        = Report.ErrorCount (report t) + 1 \<and>
      Report.SuccessCount (report (collect e (checkStatus e c url i) t))
        = Report.SuccessCount (report t) \<and>
      Report.ResponseCodes (report (collect e (checkStatus e c url i) t))
        = Report.ResponseCodes (report t)) \<and>
   Duration (checkStatus e c url i) = Duration_String (elapsed e c i) \<and>
   Duration (checkStatus e c url i) \<noteq> []"
proof (cases "http_Get e url c i")
  case (Response st)
  then have ok: "succeeded (checkStatus e c url i)"
    by (simp add: succeeded_checkStatus answered_def)
  have st: "Status (checkStatus e c url i) = st" "Error (checkStatus e c url i) = []"
    using Response by (simp_all add: checkStatus_def Let_def)
  show ?thesis
    using Response ok st
    by (simp add: collect_def Let_def Duration_checkStatus Duration_String_nonempty)
next
  case (Failure err)
  then have ko: "\<not> succeeded (checkStatus e c url i)"
    by (simp add: succeeded_checkStatus answered_def)
  have st: "Status (checkStatus e c url i) = []"
    "Error (checkStatus e c url i) = url_Error_Error e err"
    using Failure by (simp_all add: checkStatus_def Let_def)
  show ?thesis
    using Failure ko st
    by (simp add: collect_def Let_def Duration_checkStatus Duration_String_nonempty
        url_Error_Error_nonempty)
qed


theorem probe_outcome_classification_witness:
  "http_Get demo demoURL 1 0 = Response ''200 OK'' \<and>
   succeeded (checkStatus demo 1 demoURL 0) \<and>
   Status (checkStatus demo 1 demoURL 0) = ''200 OK'' \<and>
   Error (checkStatus demo 1 demoURL 0) = [] \<and>
   Duration (checkStatus demo 1 demoURL 0) = ''1ms'' \<and>
   http_Get demo demoURL 2 1 = Failure (url_Error ''Get'' demoURL ''connection refused'') \<and>
   \<not> succeeded (checkStatus demo 2 demoURL 1) \<and>
   Status (checkStatus demo 2 demoURL 1) = [] \<and>
   Error (checkStatus demo 2 demoURL 1)
     = ''Get '' @ [CHR 0x22] @ ''http://localhost:8025/'' @ [CHR 0x22] @ '': connection refused'' \<and>
   Duration (checkStatus demo 2 demoURL 1) = ''6ms''"
  using probe_outcome_classification [of demo 1 demoURL 0]
    probe_outcome_classification [of demo 2 demoURL 1]
  by (simp add: demo_answers demo_sel url_Error_Error_def demoURL_def String_1ms String_6ms)

section \<open>Averages without successes\<close>

lemma never_divides_by_zero: "runAPITest e url n m \<noteq> Inl (IntegerDivideByZero, tr)"
proof (cases "makechan_panics e n")
  case False
  then show ?thesis by (simp add: runAPITest_closed)
next
  case True
  then show ?thesis
    by (cases "1 \<le> m") (simp_all add: runAPITest_refused runAPITest_idle)
qed

lemma average_empty_iff: "average ds = [] \<longleftrightarrow> ds = []"
  by (simp add: average_def Duration_String_nonempty)

text \<open>
  C6. At run scope and in every cycle, \<open>SuccessCount\<close> is the number of probes that were
  answered, and \<open>AvgDurationMS\<close> is the empty string (the field is never written) exactly
  when \<open>SuccessCount\<close> is 0; with a success it is a printed duration, which is never
  empty: an average of zero would print as \<^verbatim>\<open>0s\<close>. This holds of every run of a width
  that \<^verbatim>\<open>make\<close> accepts for the channel; no run, of any width, panics on a division by
  zero. With the server down, every count of successes is 0 and every average is unset.
\<close>
theorem average_unset_without_success:
  assumes "\<not> makechan_panics e n"
  shows "\<exists>r tr. runAPITest e url n m = Inr (r, tr) \<and>
           Report.SuccessCount r = int (length (concat (map (okIDs e url n) [1..m]))) \<and>
           (Report.SuccessCount r = 0 \<longrightarrow> Report.AvgDurationMS r = []) \<and>
           (0 < Report.SuccessCount r \<longrightarrow> Report.AvgDurationMS r \<noteq> []) \<and>
           map CycleNumber (CycleDetails r) = [1..m] \<and>
           (\<forall>cs \<in> set (CycleDetails r).
              CycleStats.SuccessCount cs = int (length (okIDs e url n (CycleNumber cs))) \<and>
              (CycleStats.SuccessCount cs = 0 \<longrightarrow> CycleStats.AvgDurationMS cs = []) \<and>
              (0 < CycleStats.SuccessCount cs \<longrightarrow> CycleStats.AvgDurationMS cs \<noteq> [])) \<and>
           Duration_String 0 = ''0s'' \<and>
           (\<forall>n' tr'. runAPITest e url n' m \<noteq> Inl (IntegerDivideByZero, tr'))"
proof -
  obtain r where r: "runAPITest e url n m = Inr (r, control n m)"
    and suc: "Report.SuccessCount r = int (length (filter succeeded (received e url n m)))"
    and avg: "Report.AvgDurationMS r = average (parsed e (received e url n m))"
    and cd: "CycleDetails r = map (cycleReport e url n) [1..m]"
    using run_returns [OF assms, of url m] by blast
  have unset: "average (parsed e rs) = [] \<longleftrightarrow> int (length (filter succeeded rs)) = 0" for rs
    by (simp add: average_empty_iff parsed_def)
  have 0: "Report.SuccessCount r = int (length (concat (map (okIDs e url n) [1..m])))"
    by (simp add: suc received_def length_filter_concat_int length_concat_int
        length_filter_channel)
  have 1: "Report.SuccessCount r = 0 \<longrightarrow> Report.AvgDurationMS r = []"
    unfolding suc avg unset by simp
  have 2: "0 < Report.SuccessCount r \<longrightarrow> Report.AvgDurationMS r \<noteq> []"
    unfolding suc avg unset by simp
  have 3: "map CycleNumber (CycleDetails r) = [1..m]"
    unfolding cd by (simp add: comp_def cycleReport_sel)
  have 4: "\<forall>cs \<in> set (CycleDetails r).
              CycleStats.SuccessCount cs = int (length (okIDs e url n (CycleNumber cs))) \<and>
              (CycleStats.SuccessCount cs = 0 \<longrightarrow> CycleStats.AvgDurationMS cs = []) \<and>
              (0 < CycleStats.SuccessCount cs \<longrightarrow> CycleStats.AvgDurationMS cs \<noteq> [])"
    unfolding cd by (simp add: cycleReport_sel unset length_filter_channel)
  have 5: "\<forall>n' tr'. runAPITest e url n' m \<noteq> Inl (IntegerDivideByZero, tr')"
    by (simp add: never_divides_by_zero)
  show ?thesis
    by (intro exI [of _ r] exI [of _ "control n m"] conjI) (fact r 0 1 2 3 4 5 Duration_String_0)+
qed

theorem average_unset_without_success_witness:
  "\<not> makechan_panics down 2 \<and>
   okIDs down demoURL 2 1 = [] \<and> okIDs down demoURL 2 2 = [] \<and>
   (\<exists>r tr. runAPITest down demoURL 2 2 = Inr (r, tr) \<and>
      Report.TotalRequests r = 4 \<and> Report.ErrorCount r = 4 \<and>
      Report.SuccessCount r = 0 \<and> Report.AvgDurationMS r = [] \<and>
      Report.AvgDurationMS r \<noteq> ''0s'' \<and>
      map CycleNumber (CycleDetails r) = [1, 2] \<and>
      map CycleStats.SuccessCount (CycleDetails r) = [0, 0] \<and>
      map CycleStats.AvgDurationMS (CycleDetails r) = [[], []]) \<and>
   \<not> makechan_panics demo 2 \<and>
   (\<exists>r tr. runAPITest demo demoURL 2 2 = Inr (r, tr) \<and>
      Report.SuccessCount r = 3 \<and> Report.AvgDurationMS r = ''2.666666ms'' \<and>
      map CycleStats.SuccessCount (CycleDetails r) = [2, 1] \<and>
      map CycleStats.AvgDurationMS (CycleDetails r) = [''1ms'', ''6ms'']) \<and>
   runAPITest down demoURL (- 1) 2 = Inl (MakechanSizeOutOfRange, [Progress 1])"
proof -
  have neg: "makechan_panics down (- 1)"
    by (simp add: makechan_panics_def Let_def)
  show ?thesis
    using average_unset_without_success [of down 2 demoURL 2]
      average_unset_without_success [of demo 2 demoURL 2]
    by (simp add: down_accepts_2 down_run down_okIDs demo_accepts_2 demo_run upto_1_2
        runAPITest_refused [OF neg])
qed

section \<open>Status codes\<close>




















section \<open>Averages\<close>


lemma average_cong: "mset ds = mset ds' \<Longrightarrow> average ds = average ds'"
proof -
  assume eq: "mset ds = mset ds'"
  have "sum_list ds = sum_list ds'"
    using arg_cong [OF eq, of sum_mset] by (simp add: sum_mset_sum_list)
  moreover have "length ds = length ds'"
    using arg_cong [OF eq, of size] by simp
  moreover have "ds = [] \<longleftrightarrow> ds' = []"
    using \<open>length ds = length ds'\<close> by auto
  ultimately show ?thesis by (simp add: average_def)
qed

lemma average_quotient: "ds \<noteq> [] \<Longrightarrow> average ds = Duration_String (int64_mean ds)"
  by (simp add: average_def int64_mean_def)

lemma mset_parsed_latencies:
  assumes "\<forall>i \<in> set (okIDs e url n c).
             time_ParseDuration e (Duration_String (elapsed e c i)) = elapsed e c i"
  shows "mset (parsed e (channel e url n c)) = mset (latencies e url n c)"
proof -
  have "map (\<lambda>i. time_ParseDuration e (Duration_String (elapsed e c i))) (okIDs e url n c)
          = map (elapsed e c) (okIDs e url n c)"
    using assms by simp
  then show ?thesis
    by (simp only: mset_parsed latencies_def)
qed

lemma mset_parsed_pool:
  assumes "\<forall>c \<in> set cs. \<forall>i \<in> set (okIDs e url n c).
             time_ParseDuration e (Duration_String (elapsed e c i)) = elapsed e c i"
  shows "mset (parsed e (concat (map (channel e url n) cs)))
           = mset (concat (map (latencies e url n) cs))"
  using assms
proof (induction cs)
  case Nil
  show ?case by (simp add: parsed_Nil)
next
  case (Cons c cs)
  have "mset (parsed e (channel e url n c)) = mset (latencies e url n c)"
    using Cons.prems by (intro mset_parsed_latencies) simp
  moreover have "mset (parsed e (concat (map (channel e url n) cs)))
           = mset (concat (map (latencies e url n) cs))"
    using Cons.prems by (intro Cons.IH) simp
  ultimately show ?case
    by (simp add: parsed_append)
qed

lemma length_latencies:
  "int (length (filter succeeded (channel e url n c))) = int (length (latencies e url n c))"
  by (simp add: length_filter_channel latencies_def)

lemma length_pool:
  "int (length (filter succeeded (received e url n m))) = int (length (pool e url n m))"
  by (simp add: received_def pool_def length_filter_concat_int length_concat_int length_latencies)

text \<open>
  C3. When \<^verbatim>\<open>time.ParseDuration\<close> reads back the printed latencies, the run-level
  \<open>AvgDurationMS\<close> of a run (of a width that \<^verbatim>\<open>make\<close> accepts for the channel) is the printed quotient of the sum of the latencies of all answered
  probes of the run by the run-wide \<open>SuccessCount\<close>, which is their number (and it is
  unset when there is none): the mean of the pooled samples, each cycle weighing as many
  as it has successes. It is not the mean of the per-cycle averages: in the small world the
  cycles average 1 ms (two successes) and 6 ms (one), the report says \<^verbatim>\<open>2.666666ms\<close>,
  and the mean of the two averages would print as \<^verbatim>\<open>3.5ms\<close>.
\<close>
theorem run_average_is_pooled_mean:
  assumes "\<not> makechan_panics e n" and "roundTrips e url n m"
  shows "(\<exists>r tr. runAPITest e url n m = Inr (r, tr) \<and>
            Report.SuccessCount r = int (length (pool e url n m)) \<and>
            Report.AvgDurationMS r =
              (if pool e url n m = [] then []
               else Duration_String
                      (int64_div (sum_list (pool e url n m)) (of_int (Report.SuccessCount r))))) \<and>
         (\<exists>r tr. runAPITest demo demoURL 2 2 = Inr (r, tr) \<and> roundTrips demo demoURL 2 2 \<and>
            Report.AvgDurationMS r = ''2.666666ms'' \<and>
            Duration_String (meanOfMeans demo demoURL 2 2) = ''3.5ms'')"
proof
  obtain r where r: "runAPITest e url n m = Inr (r, control n m)"
    and suc: "Report.SuccessCount r = int (length (filter succeeded (received e url n m)))"
    and avg: "Report.AvgDurationMS r = average (parsed e (received e url n m))"
    using run_returns [OF assms(1), of url m] by blast
  have 1: "Report.SuccessCount r = int (length (pool e url n m))"
    by (simp only: suc length_pool)
  have "mset (parsed e (received e url n m)) = mset (pool e url n m)"
    unfolding received_def pool_def
    using assms(2) by (intro mset_parsed_pool) (simp add: roundTrips_def)
  then have "Report.AvgDurationMS r = average (pool e url n m)"
    unfolding avg by (rule average_cong)
  then have 2: "Report.AvgDurationMS r =
              (if pool e url n m = [] then []
               else Duration_String
                      (int64_div (sum_list (pool e url n m)) (of_int (Report.SuccessCount r))))"
    by (simp add: average_def 1)
  show "\<exists>r tr. runAPITest e url n m = Inr (r, tr) \<and>
            Report.SuccessCount r = int (length (pool e url n m)) \<and>
            Report.AvgDurationMS r =
              (if pool e url n m = [] then []
               else Duration_String
                      (int64_div (sum_list (pool e url n m)) (of_int (Report.SuccessCount r))))"
    by (intro exI [of _ r] exI [of _ "control n m"] conjI) (fact r 1 2)+
  show "\<exists>r tr. runAPITest demo demoURL 2 2 = Inr (r, tr) \<and> roundTrips demo demoURL 2 2 \<and>
            Report.AvgDurationMS r = ''2.666666ms'' \<and>
            Duration_String (meanOfMeans demo demoURL 2 2) = ''3.5ms''"
    by (simp add: demo_run demo_roundTrips demo_meanOfMeans String_3500us)
qed


theorem run_average_is_pooled_mean_witness:
  "\<not> makechan_panics demo 2 \<and> roundTrips demo demoURL 2 2 \<and>
   pool demo demoURL 2 2 = [1000000, 1000000, 6000000] \<and>
   (\<exists>r tr. runAPITest demo demoURL 2 2 = Inr (r, tr) \<and>
      Report.SuccessCount r = 3 \<and>
      Report.AvgDurationMS r = Duration_String (int64_div 8000000 3) \<and>
      Report.AvgDurationMS r = ''2.666666ms'' \<and>
      map CycleStats.AvgDurationMS (CycleDetails r) = [''1ms'', ''6ms'']) \<and>
   Duration_String (meanOfMeans demo demoURL 2 2) = ''3.5ms''"
proof -
  have "\<exists>r tr. runAPITest demo demoURL 2 2 = Inr (r, tr) \<and>
            Report.SuccessCount r = int (length (pool demo demoURL 2 2)) \<and>
            Report.AvgDurationMS r =
              (if pool demo demoURL 2 2 = [] then []
               else Duration_String
                      (int64_div (sum_list (pool demo demoURL 2 2))
                         (of_int (Report.SuccessCount r))))"
    using run_average_is_pooled_mean [OF demo_accepts_2 demo_roundTrips] by (rule conjunct1)
  then show ?thesis
    by (simp add: demo_accepts_2 demo_roundTrips demo_pool demo_run demo_meanOfMeans
        String_3500us div_3 String_avg)
qed

lemma sint_length:
  assumes "int k < 2 ^ 63"
  shows "sint (of_nat k :: Duration) = int k"
proof -
  have "sint (of_nat k :: Duration) = signed_take_bit 63 (int k)"
    by (simp add: signed_of_nat)
  also have "\<dots> = int k"
    using assms by (intro signed_take_bit_int_eq_self) simp_all
  finally show ?thesis .
qed

lemma truncated_quotient_bounds:
  fixes s k B :: int
  assumes "0 < k" and "- B \<le> s" and "s < B"
  shows "- B \<le> sgn s * (\<bar>s\<bar> div k)" and "sgn s * (\<bar>s\<bar> div k) < B"
proof -
  define a where "a = \<bar>s\<bar> div k"
  have le: "a \<le> \<bar>s\<bar>"
    unfolding a_def using zdiv_mono2 [of "\<bar>s\<bar>" 1 k] assms(1) by simp
  have ge0: "0 \<le> a"
    unfolding a_def using assms(1) by (simp add: pos_imp_zdiv_nonneg_iff)
  consider "s < 0" | "s = 0" | "0 < s" by linarith
  then have "- B \<le> sgn s * a \<and> sgn s * a < B"
  proof cases
    case 1
    then have "sgn s * a = - a" by simp
    then show ?thesis using le ge0 assms(2,3) 1 by linarith
  next
    case 2
    then show ?thesis using assms(2,3) by simp
  next
    case 3
    then have "sgn s * a = a" by simp
    then show ?thesis using le ge0 assms(2,3) 3 by linarith
  qed
  then show "- B \<le> sgn s * (\<bar>s\<bar> div k)" and "sgn s * (\<bar>s\<bar> div k) < B"
    by (simp_all add: a_def)
qed

lemma int64_mean_truncates:
  assumes "0 < length ds" and "int (length ds) < 2 ^ 63"
  shows "sint (int64_mean ds)
           = sgn (sint (sum_list ds)) * (\<bar>sint (sum_list ds)\<bar> div int (length ds))"
proof -
  let ?s = "sint (sum_list ds)"
  let ?k = "int (length ds)"
  let ?q = "sgn ?s * (\<bar>?s\<bar> div ?k)"
  have k: "0 < ?k" using assms(1) by simp
  have lo: "- (2 ^ 63) \<le> ?s" and hi: "?s < 2 ^ 63"
    using sint_ge [of "sum_list ds"] sint_lt [of "sum_list ds"] by simp_all
  have "?s sdiv ?k = ?q"
    using k by (simp add: signed_divide_int_def)
  then have "int64_mean ds = word_of_int ?q"
    by (simp only: int64_mean_def int64_div_def sint_length [OF assms(2)])
  then have "sint (int64_mean ds) = sint (word_of_int ?q :: Duration)"
    by (simp only:)
  also have "\<dots> = signed_take_bit 63 ?q"
    using sint_sbintrunc' [where 'a = 64, of ?q] by simp
  also have "\<dots> = ?q"
    using truncated_quotient_bounds [OF k lo hi] by (rule signed_take_bit_int_eq_self)
  finally show ?thesis .
qed

lemma sint_sum_list:
  assumes "\<forall>d \<in> set ds. 0 \<le> sint d" and "sum_list (map sint ds) < 2 ^ 63"
  shows "sint (sum_list ds :: Duration) = sum_list (map sint ds)"
  using assms
proof (induction ds)
  case Nil
  show ?case by simp
next
  case (Cons d ds)
  have d: "0 \<le> sint d" and rest: "\<forall>d \<in> set ds. 0 \<le> sint d"
    using Cons.prems(1) by simp_all
  have nonneg: "0 \<le> sum_list (map sint ds)"
    using rest by (intro sum_list_nonneg) auto
  have tail: "sum_list (map sint ds) < 2 ^ 63"
    using Cons.prems(2) d by simp
  have ih: "sint (sum_list ds) = sum_list (map sint ds)"
    using rest tail by (rule Cons.IH)
  have "sint (d + sum_list ds) = signed_take_bit 63 (sint d + sint (sum_list ds))"
    by (simp add: sint_word_ariths)
  also have "\<dots> = sint d + sum_list (map sint ds)"
    unfolding ih using d nonneg Cons.prems(2)
    by (intro signed_take_bit_int_eq_self) simp_all
  finally show ?case by simp
qed


text \<open>
  C9. At run scope and in every cycle, \<open>SuccessCount\<close> is the number of the successful
  latencies, and whenever it is positive the reported average is the printed \<^verbatim>\<open>int64\<close>
  quotient of the sum of the successful latencies by their number (without a success the
  average is unset). The quotient truncates towards zero: its value is the sign of the sum
  times the floor of the quotient of the absolute values, so the remainder is dropped and
  nothing is rounded. The sum is the \<^verbatim>\<open>int64\<close> sum the code accumulates; it is the
  exact sum of the nanoseconds whenever the latencies are not negative and that sum is
  below \<open>2\<^sup>6\<^sup>3\<close>. This holds of every run of a width that \<^verbatim>\<open>make\<close> accepts for the
  channel, when \<^verbatim>\<open>time.ParseDuration\<close> reads back the printed latencies.
\<close>
theorem average_is_truncated_quotient:
  assumes "\<not> makechan_panics e n" and "roundTrips e url n m"
  shows "\<exists>r tr. runAPITest e url n m = Inr (r, tr) \<and>
           Report.SuccessCount r = int (length (pool e url n m)) \<and>
           Report.AvgDurationMS r
             = (if 0 < Report.SuccessCount r then Duration_String (int64_mean (pool e url n m))
                else []) \<and>
           map CycleNumber (CycleDetails r) = [1..m] \<and>
           (\<forall>cs \<in> set (CycleDetails r).
              CycleStats.SuccessCount cs = int (length (latencies e url n (CycleNumber cs))) \<and>
              CycleStats.AvgDurationMS cs
                = (if 0 < CycleStats.SuccessCount cs
                   then Duration_String (int64_mean (latencies e url n (CycleNumber cs)))
                   else [])) \<and>
           (\<forall>ds. 0 < length ds \<and> int (length ds) < 2 ^ 63 \<longrightarrow>
              sint (int64_mean ds)
                = sgn (sint (sum_list ds)) * (\<bar>sint (sum_list ds)\<bar> div int (length ds))) \<and>
           (\<forall>ds :: Duration list.
              (\<forall>d \<in> set ds. 0 \<le> sint d) \<and> sum_list (map sint ds) < 2 ^ 63 \<longrightarrow>
              sint (sum_list ds) = sum_list (map sint ds))"
proof -
  obtain r where r: "runAPITest e url n m = Inr (r, control n m)"
    and suc: "Report.SuccessCount r = int (length (filter succeeded (received e url n m)))"
    and avg: "Report.AvgDurationMS r = average (parsed e (received e url n m))"
    and cd: "CycleDetails r = map (cycleReport e url n) [1..m]"
    using run_returns [OF assms(1), of url m] by blast
  have trips: "\<forall>c \<in> set [1..m]. \<forall>i \<in> set (okIDs e url n c).
                 time_ParseDuration e (Duration_String (elapsed e c i)) = elapsed e c i"
    using assms(2) by (simp add: roundTrips_def)
  have 0: "Report.SuccessCount r = int (length (pool e url n m))"
    by (simp only: suc length_pool)
  have "mset (parsed e (received e url n m)) = mset (pool e url n m)"
    unfolding received_def pool_def using trips by (rule mset_parsed_pool)
  then have "Report.AvgDurationMS r = average (pool e url n m)"
    unfolding avg by (rule average_cong)
  then have 1: "Report.AvgDurationMS r
             = (if 0 < Report.SuccessCount r then Duration_String (int64_mean (pool e url n m))
                else [])"
    unfolding 0 by (simp add: average_def int64_mean_def)
  have 2: "map CycleNumber (CycleDetails r) = [1..m]"
    unfolding cd by (simp add: comp_def cycleReport_sel)
  have 3: "\<forall>cs \<in> set (CycleDetails r).
              CycleStats.SuccessCount cs = int (length (latencies e url n (CycleNumber cs))) \<and>
              CycleStats.AvgDurationMS cs
                = (if 0 < CycleStats.SuccessCount cs
                   then Duration_String (int64_mean (latencies e url n (CycleNumber cs)))
                   else [])"
  proof
    fix cs assume "cs \<in> set (CycleDetails r)"
    then obtain c where c: "c \<in> set [1..m]" and cs: "cs = cycleReport e url n c"
      unfolding cd by auto
    have "mset (parsed e (channel e url n c)) = mset (latencies e url n c)"
      using trips c by (intro mset_parsed_latencies) blast
    then have a: "CycleStats.AvgDurationMS cs = average (latencies e url n c)"
      unfolding cs cycleReport_sel by (rule average_cong)
    have l: "CycleStats.SuccessCount cs = int (length (latencies e url n c))"
      unfolding cs cycleReport_sel by (rule length_latencies)
    have k: "CycleNumber cs = c"
      unfolding cs by (rule cycleReport_sel)
    show "CycleStats.SuccessCount cs = int (length (latencies e url n (CycleNumber cs))) \<and>
              CycleStats.AvgDurationMS cs
                = (if 0 < CycleStats.SuccessCount cs
                   then Duration_String (int64_mean (latencies e url n (CycleNumber cs)))
                   else [])"
      unfolding k l a by (simp add: average_def int64_mean_def)
  qed
  have 4: "\<forall>ds. 0 < length ds \<and> int (length ds) < 2 ^ 63 \<longrightarrow>
              sint (int64_mean ds)
                = sgn (sint (sum_list ds)) * (\<bar>sint (sum_list ds)\<bar> div int (length ds))"
    using int64_mean_truncates by blast
  have 5: "\<forall>ds :: Duration list.
              (\<forall>d \<in> set ds. 0 \<le> sint d) \<and> sum_list (map sint ds) < 2 ^ 63 \<longrightarrow>
              sint (sum_list ds) = sum_list (map sint ds)"
    using sint_sum_list by blast
  show ?thesis
    by (intro exI [of _ r] exI [of _ "control n m"] conjI) (fact r 0 1 2 3 4 5)+
qed

theorem average_is_truncated_quotient_witness:
  "\<not> makechan_panics demo 2 \<and> roundTrips demo demoURL 2 2 \<and>
   pool demo demoURL 2 2 = [1000000, 1000000, 6000000] \<and>
   latencies demo demoURL 2 1 = [1000000, 1000000] \<and>
   latencies demo demoURL 2 2 = [6000000] \<and>
   int64_mean [1000000, 1000000, 6000000] = 2666666 \<and>
   (8000000::int) div 3 = 2666666 \<and> (8000000::int) mod 3 = 2 \<and>
   (\<exists>r tr. runAPITest demo demoURL 2 2 = Inr (r, tr) \<and>
      Report.SuccessCount r = 3 \<and>
      Report.AvgDurationMS r = Duration_String (int64_mean [1000000, 1000000, 6000000]) \<and>
      Report.AvgDurationMS r = ''2.666666ms'' \<and>
      map CycleNumber (CycleDetails r) = [1, 2] \<and>
      map CycleStats.SuccessCount (CycleDetails r) = [2, 1] \<and>
      map CycleStats.AvgDurationMS (CycleDetails r)
        = [Duration_String (int64_mean [1000000, 1000000]),
           Duration_String (int64_mean [6000000])] \<and>
      map CycleStats.AvgDurationMS (CycleDetails r) = [''1ms'', ''6ms'']) \<and>
   sint (int64_mean [1000000, 1000000, 6000000])
     = sgn (sint (sum_list [1000000, 1000000, 6000000 :: Duration]))
       * (\<bar>sint (sum_list [1000000, 1000000, 6000000 :: Duration])\<bar> div 3)"
proof -
  have mean: "int64_mean [1000000, 1000000, 6000000] = 2666666"
    "int64_mean [1000000, 1000000] = 1000000" "int64_mean [6000000] = 6000000"
    by (simp_all add: int64_mean_def div_1 div_2 div_3)
  note run = average_is_truncated_quotient [OF demo_accepts_2 demo_roundTrips]
  have "\<exists>r tr. runAPITest demo demoURL 2 2 = Inr (r, tr) \<and>
           Report.SuccessCount r = int (length (pool demo demoURL 2 2))"
    using run by (elim exE conjE) (intro exI conjI, assumption+)
  moreover have "sint (int64_mean [1000000, 1000000, 6000000])
     = sgn (sint (sum_list [1000000, 1000000, 6000000 :: Duration]))
       * (\<bar>sint (sum_list [1000000, 1000000, 6000000 :: Duration])\<bar>
           div int (length [1000000, 1000000, 6000000 :: Duration]))"
    using run by (elim exE conjE) simp
  ultimately show ?thesis
    by (simp add: demo_accepts_2 demo_roundTrips demo_pool demo_latencies demo_run mean
        String_1ms String_6ms String_avg)
qed

end
